theory Spec2Isabelle
  imports Complex_Main "HOL-Library.Sublist" "HOL-Library.Option_ord" "HOL-Library.Multiset"
begin

section \<open>Python values\<close>

text \<open>
  The webhook receiver of \<^verbatim>\<open>app.py\<close> works on duck-typed Python values: the JSON body of a
  request, the documents it builds from it and the documents it reads back from the
  collection. One datatype holds them all. A dict is an association list read with
  \<open>map_of\<close>; \<open>datetime\<close> is the only non-JSON value the program creates.
\<close>

record datetime =
  year :: int
  month :: int
  day :: int
  hour :: int
  minute :: int
  second :: int
  microsecond :: int
  tzinfo :: "int option"

datatype pyval =
    PNone
  | PBool bool
  | PInt int
  | PFloat real
  | PStr string
  | PList "pyval list"
  | PDict "(string \<times> pyval) list"
  | PDatetime datetime

type_synonym doc = "(string \<times> pyval) list"

text \<open>The exceptions the program can meet: a method missing on a value, a wrong argument type.\<close>

datatype error = AttributeError | TypeError

definition bind_err :: "error + 'a \<Rightarrow> ('a \<Rightarrow> error + 'b) \<Rightarrow> error + 'b" where
  "bind_err m f = (case m of Inl e \<Rightarrow> Inl e | Inr v \<Rightarrow> f v)"

text \<open>Python truthiness (\<^verbatim>\<open>not x\<close>, \<^verbatim>\<open>x or y\<close>, \<^verbatim>\<open>if x\<close>).\<close>

fun truthy :: "pyval \<Rightarrow> bool" where
  "truthy PNone = False"
| "truthy (PBool b) = b"
| "truthy (PInt n) = (n \<noteq> 0)"
| "truthy (PFloat r) = (r \<noteq> 0)"
| "truthy (PStr s) = (s \<noteq> [])"
| "truthy (PList xs) = (xs \<noteq> [])"
| "truthy (PDict kvs) = (kvs \<noteq> [])"
| "truthy (PDatetime d) = True"

text \<open>\<^verbatim>\<open>a or b\<close> for two values already computed.\<close>

definition py_or :: "pyval \<Rightarrow> pyval \<Rightarrow> pyval" where
  "py_or a b = (if truthy a then a else b)"

text \<open>\<^verbatim>\<open>obj.get(k, dflt)\<close>: only a dict has the method.\<close>

definition py_get :: "pyval \<Rightarrow> string \<Rightarrow> pyval \<Rightarrow> error + pyval" where
  "py_get obj k dflt =
     (case obj of
        PDict kvs \<Rightarrow> Inr (case map_of kvs k of Some v \<Rightarrow> v | None \<Rightarrow> dflt)
      | _ \<Rightarrow> Inl AttributeError)"

text \<open>
  \<^verbatim>\<open>s.replace(old, new)\<close> on strings: every non-overlapping occurrence of \<open>old\<close>, scanning from
  the left, is replaced; an empty \<open>old\<close> matches before every character and at the end.
\<close>

function str_replace :: "string \<Rightarrow> string \<Rightarrow> string \<Rightarrow> string" where
  "str_replace s old new =
     (if old = [] then new @ concat (map (\<lambda>c. c # new) s)
      else if s = [] then []
      else if prefix old s then new @ str_replace (drop (length old) s) old new
      else hd s # str_replace (tl s) old new)"
  by pat_completeness auto
termination
  by (relation "measure (\<lambda>(s, old, new). length s)") auto

declare str_replace.simps [simp del]

text \<open>
  \<^verbatim>\<open>v.replace(old, new)\<close> on a value: a string has the method above; a datetime has a
  \<^verbatim>\<open>replace\<close> that rejects string arguments with TypeError; no other value has one.
\<close>

definition py_replace :: "pyval \<Rightarrow> string \<Rightarrow> string \<Rightarrow> error + string" where
  "py_replace v old new =
     (case v of
        PStr s \<Rightarrow> Inr (str_replace s old new)
      | PDatetime d \<Rightarrow> Inl TypeError
      | _ \<Rightarrow> Inl AttributeError)"

section \<open>Branch names\<close>

definition ref_to_branch :: "pyval \<Rightarrow> error + string" where
  "ref_to_branch ref =
     (if \<not> truthy ref then Inr ''unknown''
      else case ref of
             PStr s \<Rightarrow> Inr (if prefix ''refs/heads/'' s then str_replace s ''refs/heads/'' [] else s)
           | _ \<Rightarrow> Inl AttributeError)"

section \<open>Timestamps\<close>

text \<open>
  \<^verbatim>\<open>datetime.fromisoformat\<close> is the standard library's parser; it is a parameter here, \<open>None\<close>
  standing for its ValueError. Every \<^verbatim>\<open>datetime.utcnow()\<close> is a reading of the clock that the
  caller passes in.
\<close>

definition parse_github_timestamp ::
  "(string \<Rightarrow> datetime option) \<Rightarrow> datetime \<Rightarrow> pyval \<Rightarrow> error + datetime" where
  "parse_github_timestamp fromisoformat now ts_str =
     (if \<not> truthy ts_str then Inr now
      else case py_replace ts_str ''Z'' ''+00:00'' of
             Inr s \<Rightarrow> (case fromisoformat s of Some dt \<Rightarrow> Inr dt | None \<Rightarrow> Inr now)
           | Inl TypeError \<Rightarrow> Inr now
           | Inl e \<Rightarrow> Inl e)"

text \<open>Decimal digits of a natural number, as \<^verbatim>\<open>str\<close> and the format codes print them.\<close>

definition digit_char :: "nat \<Rightarrow> char" where
  "digit_char n = ''0123456789'' ! n"

fun dec :: "nat \<Rightarrow> string" where
  "dec n = (if n < 10 then [digit_char n] else dec (n div 10) @ [digit_char (n mod 10)])"

declare dec.simps [simp del]

text \<open>Zero padding to width two: \<^verbatim>\<open>%d\<close> of strftime and \<^verbatim>\<open>{minute:02d}\<close>.\<close>

definition pad2 :: "int \<Rightarrow> string" where
  "pad2 n = (if n < 10 then CHR ''0'' # dec (nat n) else dec (nat n))"

definition month_names :: "string list" where
  "month_names = [''January'', ''February'', ''March'', ''April'', ''May'', ''June'', ''July'',
     ''August'', ''September'', ''October'', ''November'', ''December'']"

text \<open>
  The three strftime codes the program uses, in the C locale: \<^verbatim>\<open>%d\<close> is the day of the month
  as two digits, \<^verbatim>\<open>%B\<close> the full month name, \<^verbatim>\<open>%Y\<close> the year in decimal.
\<close>

definition strftime_d :: "datetime \<Rightarrow> string" where
  "strftime_d dt = pad2 (day dt)"

definition strftime_B :: "datetime \<Rightarrow> string" where
  "strftime_B dt = month_names ! nat (month dt - 1)"

definition strftime_Y :: "datetime \<Rightarrow> string" where
  "strftime_Y dt = dec (nat (year dt))"

text \<open>
  The ordinal suffix, as \<^verbatim>\<open>format_timestamp\<close> computes it into its local \<^verbatim>\<open>suffix\<close>. The list
  index \<^verbatim>\<open>day % 10 - 1\<close> is \<open>-1\<close> when the day ends in 0, which Python reads from the end.
\<close>

definition suffix_of_day :: "int \<Rightarrow> string" where
  "suffix_of_day d =
     (if (4 \<le> d \<and> d \<le> 20) \<or> (24 \<le> d \<and> d \<le> 30) then ''th''
      else if d mod 10 \<le> 3
           then (let i = d mod 10 - 1 in [''st'', ''nd'', ''rd''] ! nat (if i < 0 then i + 3 else i))
           else ''th'')"

text \<open>The locals \<^verbatim>\<open>date_str\<close> and \<^verbatim>\<open>time_str\<close> of \<^verbatim>\<open>format_timestamp\<close>.\<close>

definition date_str :: "datetime \<Rightarrow> string" where
  "date_str dt =
     strftime_d dt @ suffix_of_day (day dt) @ '' '' @ strftime_B dt @ '' '' @ strftime_Y dt"

definition time_str :: "datetime \<Rightarrow> string" where
  "time_str dt =
     (let h = (if hour dt mod 12 = 0 then 12 else hour dt mod 12);
          ampm = (if hour dt < 12 then ''AM'' else ''PM'')
      in dec (nat h) @ '':'' @ pad2 (minute dt) @ '' '' @ ampm)"

definition format_timestamp :: "datetime \<Rightarrow> pyval \<Rightarrow> string" where
  "format_timestamp now v =
     (let dt = (case v of PDatetime d \<Rightarrow> d | _ \<Rightarrow> now)
      in date_str dt @ '' - '' @ time_str dt @ '' UTC'')"

section \<open>Webhook handlers\<close>

text \<open>
  The two handlers read the clock once for \<^verbatim>\<open>timestamp\<close> (or for the fall-back of the parser)
  and once for \<^verbatim>\<open>created_at\<close>: \<open>t1\<close> and \<open>t2\<close> are these two readings, in that order.
  A handler that raises returns \<open>Inl\<close>; \<^verbatim>\<open>return None\<close> is \<open>Inr None\<close>.
\<close>

definition handle_push :: "datetime \<Rightarrow> datetime \<Rightarrow> pyval \<Rightarrow> error + doc" where
  "handle_push t1 t2 payload =
     bind_err (py_get payload ''repository'' (PDict [])) (\<lambda>repository.
     bind_err (py_get repository ''name'' (PStr ''unknown-repo'')) (\<lambda>repo.
     bind_err (py_get payload ''pusher'' (PDict [])) (\<lambda>pusher_obj.
     bind_err (py_get pusher_obj ''name'' (PStr ''unknown-user'')) (\<lambda>pusher.
     bind_err (py_get payload ''ref'' (PStr [])) (\<lambda>ref.
     bind_err (py_replace ref ''refs/heads/'' []) (\<lambda>branch.
     Inr [(''action'', PStr ''push''),
          (''author'', pusher),
          (''repo'', repo),
          (''from_branch'', PNone),
          (''to_branch'', PStr branch),
          (''timestamp'', PDatetime t1),
          (''created_at'', PDatetime t2)]))))))"

text \<open>
  The author expression of both branches of \<^verbatim>\<open>handle_pull_request\<close>, with \<open>k\<close> the key
  \<^verbatim>\<open>merged_by\<close> or \<^verbatim>\<open>user\<close>:
  \<^verbatim>\<open>(pr.get(k) or {}).get("login") or (payload.get("sender") or {}).get("login") or "Unknown"\<close>.
  \<^verbatim>\<open>or\<close> does not evaluate its right operand when the left one is truthy.
\<close>

definition author_of :: "pyval \<Rightarrow> string \<Rightarrow> pyval \<Rightarrow> error + pyval" where
  "author_of pr k payload =
     bind_err (py_get pr k PNone) (\<lambda>u.
     bind_err (py_get (py_or u (PDict [])) ''login'' PNone) (\<lambda>l1.
     if truthy l1 then Inr l1
     else bind_err (py_get payload ''sender'' PNone) (\<lambda>sender.
          bind_err (py_get (py_or sender (PDict [])) ''login'' PNone) (\<lambda>l2.
          Inr (py_or l2 (PStr ''Unknown''))))))"

definition handle_pull_request ::
  "(string \<Rightarrow> datetime option) \<Rightarrow> datetime \<Rightarrow> datetime \<Rightarrow> pyval \<Rightarrow> error + doc option" where
  "handle_pull_request fromisoformat t1 t2 payload =
     bind_err (py_get payload ''pull_request'' PNone) (\<lambda>pr0.
     let pr = py_or pr0 (PDict []) in
     bind_err (py_get payload ''action'' PNone) (\<lambda>action.
     bind_err (py_get pr ''merged'' (PBool False)) (\<lambda>merged.
     if action = PStr ''closed'' \<and> truthy merged then
       bind_err (py_get pr ''base'' (PDict [])) (\<lambda>base.
       bind_err (py_get pr ''head'' (PDict [])) (\<lambda>head.
       bind_err (py_get base ''ref'' (PStr [])) (\<lambda>base_ref.
       bind_err (ref_to_branch base_ref) (\<lambda>to_branch.
       bind_err (py_get head ''ref'' (PStr [])) (\<lambda>head_ref.
       bind_err (ref_to_branch head_ref) (\<lambda>from_branch.
       bind_err (author_of pr ''merged_by'' payload) (\<lambda>merger.
       bind_err (py_get pr ''merged_at'' PNone) (\<lambda>merged_at.
       bind_err (if truthy merged_at then parse_github_timestamp fromisoformat t1 merged_at
                 else Inr t1) (\<lambda>ts.
       bind_err (py_get payload ''repository'' PNone) (\<lambda>repository.
       bind_err (py_get (py_or repository (PDict [])) ''full_name'' (PStr [])) (\<lambda>repo.
       Inr (Some [(''action'', PStr ''merge''),
                  (''author'', merger),
                  (''to_branch'', PStr to_branch),
                  (''from_branch'', PStr from_branch),
                  (''timestamp'', PDatetime ts),
                  (''repo'', repo),
                  (''created_at'', PDatetime t2)]))))))))))))
     else if action = PStr ''opened'' \<or> action = PStr ''synchronize'' then
       bind_err (py_get pr ''base'' (PDict [])) (\<lambda>base.
       bind_err (py_get pr ''head'' (PDict [])) (\<lambda>head.
       bind_err (py_get base ''ref'' (PStr [])) (\<lambda>base_ref.
       bind_err (ref_to_branch base_ref) (\<lambda>to_branch.
       bind_err (py_get head ''ref'' (PStr [])) (\<lambda>head_ref.
       bind_err (ref_to_branch head_ref) (\<lambda>from_branch.
       bind_err (author_of pr ''user'' payload) (\<lambda>author.
       bind_err (py_get pr ''created_at'' PNone) (\<lambda>ts_str.
       bind_err (parse_github_timestamp fromisoformat t1 ts_str) (\<lambda>ts.
       bind_err (py_get payload ''repository'' PNone) (\<lambda>repository.
       bind_err (py_get (py_or repository (PDict [])) ''full_name'' (PStr [])) (\<lambda>repo.
       Inr (Some [(''action'', PStr ''pull_request''),
                  (''author'', author),
                  (''to_branch'', PStr to_branch),
                  (''from_branch'', PStr from_branch),
                  (''timestamp'', PDatetime ts),
                  (''repo'', repo),
                  (''created_at'', PDatetime t2)]))))))))))))
     else Inr None)))"

section \<open>The collection and the routes\<close>

text \<open>
  The MongoDB collection is a list of documents in insertion order, each with the object id
  the store gave it. \<^verbatim>\<open>insert_one\<close> appends; nothing in the program updates or deletes.
\<close>

type_synonym collection = "(nat \<times> doc) list"

definition insert_one :: "collection \<Rightarrow> doc \<Rightarrow> collection" where
  "insert_one coll d = coll @ [(length coll, d)]"

definition debug_insert :: "datetime \<Rightarrow> collection \<Rightarrow> collection \<times> string" where
  "debug_insert now coll =
     (insert_one coll
        [(''action'', PStr ''debug''),
         (''author'', PStr ''ankith''),
         (''repo'', PStr ''manual-test''),
         (''created_at'', PDatetime now)],
      ''Inserted test document'')"

datatype response = Pong | Stored | Ignored

text \<open>
  \<^verbatim>\<open>webhook\<close>: \<open>event\<close> is the \<^verbatim>\<open>X-GitHub-Event\<close> header (empty when absent), \<open>body\<close> the parsed
  JSON body, \<open>PNone\<close> when it does not parse (\<^verbatim>\<open>silent=True\<close>).
\<close>

definition webhook ::
  "(string \<Rightarrow> datetime option) \<Rightarrow> datetime \<Rightarrow> datetime \<Rightarrow> collection \<Rightarrow> string \<Rightarrow> pyval
     \<Rightarrow> error + collection \<times> response" where
  "webhook fromisoformat t1 t2 coll event body =
     (let payload = py_or body (PDict []);
          finish = (\<lambda>r. case r of
                       Some d \<Rightarrow> Inr (insert_one coll d, Stored)
                     | None \<Rightarrow> Inr (coll, Ignored))
      in if event = ''push'' then bind_err (handle_push t1 t2 payload) (\<lambda>d. finish (Some d))
         else if event = ''pull_request''
              then bind_err (handle_pull_request fromisoformat t1 t2 payload) finish
         else if event = ''ping'' then Inr (coll, Pong)
         else finish None)"

text \<open>
  The requests that reach the application, each with the clock readings taken while it is
  served. A request whose handler raises leaves the collection as it was.
\<close>

datatype request =
    Webhook datetime datetime string pyval
  | DebugInsert datetime
  | GetEvents

definition serve :: "(string \<Rightarrow> datetime option) \<Rightarrow> collection \<Rightarrow> request \<Rightarrow> collection" where
  "serve fromisoformat coll rq =
     (case rq of
        Webhook t1 t2 event body \<Rightarrow>
          (case webhook fromisoformat t1 t2 coll event body of
             Inr (coll', resp) \<Rightarrow> coll'
           | Inl e \<Rightarrow> coll)
      | DebugInsert now \<Rightarrow> fst (debug_insert now coll)
      | GetEvents \<Rightarrow> coll)"

definition run :: "(string \<Rightarrow> datetime option) \<Rightarrow> collection \<Rightarrow> request list \<Rightarrow> collection" where
  "run fromisoformat coll rqs = foldl (serve fromisoformat) coll rqs"

section \<open>Reading the events back\<close>

text \<open>\<^verbatim>\<open>doc.get(k)\<close> on a stored document.\<close>

definition doc_get :: "doc \<Rightarrow> string \<Rightarrow> pyval" where
  "doc_get d k = (case map_of d k of Some v \<Rightarrow> v | None \<Rightarrow> PNone)"

text \<open>
  The position of an instant on the time line, for ordering: the fields of a datetime in
  lexicographic order.
\<close>

definition instant_key :: "datetime \<Rightarrow> int" where
  "instant_key dt =
     ((((((year dt * 12 + (month dt - 1)) * 31 + (day dt - 1)) * 24 + hour dt) * 60
         + minute dt) * 60 + second dt) * 1000000 + microsecond dt)"

definition created_key :: "nat \<times> doc \<Rightarrow> int option" where
  "created_key e =
     (case doc_get (snd e) ''created_at'' of
        PDatetime dt \<Rightarrow> Some (instant_key dt)
      | _ \<Rightarrow> None)"

text \<open>
  Modelled from the spec: the store's query
  \<^verbatim>\<open>events_collection.find().sort("created_at", -1).limit(100)\<close> is the database driver's, not
  code of the application. The specification says it "fetches the most recent 100 records
  ordered by \<^verbatim>\<open>created_at\<close> descending": the documents sorted by that field, newest first, a
  document without an instant there last, cut after 100.
\<close>

definition find_sort_limit :: "collection \<Rightarrow> (nat \<times> doc) list" where
  "find_sort_limit coll = take 100 (rev (sort_key created_key coll))"

text \<open>
  The library functions \<^verbatim>\<open>get_events\<close> calls: \<^verbatim>\<open>str\<close> on an object id, \<^verbatim>\<open>str\<close> on a value
  that is not a string, and \<^verbatim>\<open>datetime.isoformat\<close>. They are parameters.
\<close>

record pylib =
  str_oid :: "nat \<Rightarrow> string"
  str_other :: "pyval \<Rightarrow> string"
  isoformat :: "datetime \<Rightarrow> string"

definition py_str :: "pylib \<Rightarrow> pyval \<Rightarrow> string" where
  "py_str lib v = (case v of PStr s \<Rightarrow> s | _ \<Rightarrow> str_other lib v)"

text \<open>The body of the loop of \<^verbatim>\<open>get_events\<close>: the dict \<^verbatim>\<open>out\<close> built for one document.\<close>

definition event_out :: "pylib \<Rightarrow> datetime \<Rightarrow> nat \<times> doc \<Rightarrow> doc" where
  "event_out lib now e =
     (let d = snd e;
          ts = doc_get d ''timestamp'';
          created = doc_get d ''created_at''
      in [(''_id'', PStr (str_oid lib (fst e))),
          (''action'', doc_get d ''action''),
          (''author'', doc_get d ''author''),
          (''to_branch'', doc_get d ''to_branch''),
          (''from_branch'', doc_get d ''from_branch''),
          (''repo'', doc_get d ''repo'')]
         @ (case ts of
              PDatetime t \<Rightarrow>
                [(''timestamp_formatted'', PStr (format_timestamp now ts)),
                 (''timestamp'',
                    PStr (if tzinfo t = None then isoformat lib t @ ''Z'' else isoformat lib t))]
            | _ \<Rightarrow>
                [(''timestamp_formatted'', PStr (if truthy ts then py_str lib ts else [])),
                 (''timestamp'', ts)])
         @ [(''created_at'',
               (case created of PDatetime c \<Rightarrow> PStr (isoformat lib c @ ''Z'') | _ \<Rightarrow> created))])"

definition get_events :: "pylib \<Rightarrow> datetime \<Rightarrow> collection \<Rightarrow> doc list" where
  "get_events lib now coll = map (event_out lib now) (find_sort_limit coll)"

section \<open>The specification's vocabulary\<close>

text \<open>
  The specification names the fields of a payload by dotted paths such as
  \<^verbatim>\<open>pull_request.base.ref\<close>. \<open>field_at\<close> reads such a path; \<open>None\<close> means that the field is
  missing, because a key on the way is absent or a value on the way is not an object.
\<close>

fun field_at :: "pyval \<Rightarrow> string list \<Rightarrow> pyval option" where
  "field_at v [] = Some v"
| "field_at (PDict kvs) (k # ks) = (case map_of kvs k of None \<Rightarrow> None | Some w \<Rightarrow> field_at w ks)"
| "field_at v (k # ks) = None"

definition is_dict :: "pyval \<Rightarrow> bool" where
  "is_dict v = (case v of PDict kvs \<Rightarrow> True | _ \<Rightarrow> False)"

definition is_str :: "pyval \<Rightarrow> bool" where
  "is_str v = (case v of PStr s \<Rightarrow> True | _ \<Rightarrow> False)"

text \<open>A field that is missing or holds an object, and one that is missing or holds a string.\<close>

definition opt_dict :: "pyval \<Rightarrow> string list \<Rightarrow> bool" where
  "opt_dict p ks = (case field_at p ks of None \<Rightarrow> True | Some v \<Rightarrow> is_dict v)"

definition opt_str :: "pyval \<Rightarrow> string list \<Rightarrow> bool" where
  "opt_str p ks = (case field_at p ks of None \<Rightarrow> True | Some v \<Rightarrow> is_str v)"


definition shaped_pull_request :: "pyval \<Rightarrow> bool" where
  "shaped_pull_request p \<longleftrightarrow>
     is_dict p \<and> opt_dict p [''pull_request'']
     \<and> opt_dict p [''pull_request'', ''base''] \<and> opt_str p [''pull_request'', ''base'', ''ref'']
     \<and> opt_dict p [''pull_request'', ''head''] \<and> opt_str p [''pull_request'', ''head'', ''ref'']
     \<and> opt_dict p [''pull_request'', ''merged_by''] \<and> opt_dict p [''pull_request'', ''user'']
     \<and> opt_str p [''pull_request'', ''merged_at''] \<and> opt_str p [''pull_request'', ''created_at'']
     \<and> opt_dict p [''sender''] \<and> opt_dict p [''repository'']"




text \<open>
  The two conditions \<^verbatim>\<open>handle_pull_request\<close> branches on, read off the payload: the action is
  a given string, and \<^verbatim>\<open>pull_request.merged\<close> is present and truthy.
\<close>

definition action_is :: "pyval \<Rightarrow> string \<Rightarrow> bool" where
  "action_is p a = (field_at p [''action''] = Some (PStr a))"

definition merged_truthy :: "pyval \<Rightarrow> bool" where
  "merged_truthy p =
     (case field_at p [''pull_request'', ''merged''] of Some m \<Rightarrow> truthy m | None \<Rightarrow> False)"

text \<open>What a handler's result is: a record with a given action tag.\<close>

definition is_record :: "doc option \<Rightarrow> string \<Rightarrow> bool" where
  "is_record r a = (case r of Some d \<Rightarrow> doc_get d ''action'' = PStr a | None \<Rightarrow> False)"

text \<open>The value of a field, \<^verbatim>\<open>None\<close> when it is missing.\<close>

definition value_at :: "pyval \<Rightarrow> string list \<Rightarrow> pyval" where
  "value_at p ks = (case field_at p ks of Some v \<Rightarrow> v | None \<Rightarrow> PNone)"

text \<open>
  The author of a pull-request or merge record in the specification's words: the login under
  \<open>k\<close> (\<^verbatim>\<open>merged_by\<close> or \<^verbatim>\<open>user\<close>), else the sender's login, else \<^verbatim>\<open>Unknown\<close>, the first
  truthy one winning.
\<close>

definition spec_author :: "pyval \<Rightarrow> string \<Rightarrow> pyval" where
  "spec_author p k =
     (if truthy (value_at p [''pull_request'', k, ''login''])
      then value_at p [''pull_request'', k, ''login'']
      else if truthy (value_at p [''sender'', ''login''])
      then value_at p [''sender'', ''login'']
      else PStr ''Unknown'')"

definition nonempty_str :: "pyval \<Rightarrow> bool" where
  "nonempty_str v = (case v of PStr s \<Rightarrow> s \<noteq> [] | _ \<Rightarrow> False)"

text \<open>
  The branch resolver in the specification's words, on a ref field that may be missing:
  \<^verbatim>\<open>unknown\<close> for a missing, null or empty ref, the remainder after the prefix
  \<^verbatim>\<open>refs/heads/\<close> for a ref that begins with it, the ref itself otherwise.
\<close>

definition spec_resolve :: "pyval option \<Rightarrow> string" where
  "spec_resolve r =
     (case r of
        Some (PStr s) \<Rightarrow>
          (if s = [] then ''unknown''
           else if prefix ''refs/heads/'' s then drop (length ''refs/heads/'') s
           else s)
      | _ \<Rightarrow> ''unknown'')"

text \<open>
  The refs on which the resolver is pinned down here: a missing or falsy ref, a non-empty
  string that does not begin with the prefix, and the prefix followed by a non-empty name in
  which the prefix does not occur again.
\<close>

definition plain_ref :: "pyval option \<Rightarrow> bool" where
  "plain_ref r =
     (case r of
        None \<Rightarrow> True
      | Some v \<Rightarrow>
          (if \<not> truthy v then True
           else case v of
                  PStr s \<Rightarrow>
                    (if prefix ''refs/heads/'' s
                     then drop (length ''refs/heads/'') s \<noteq> []
                        \<and> \<not> sublist ''refs/heads/'' (drop (length ''refs/heads/'') s)
                     else True)
                | _ \<Rightarrow> False))"

text \<open>The three action tags of the data model, and the requests that are not the debug route.\<close>

definition webhook_action :: "pyval \<Rightarrow> bool" where
  "webhook_action v \<longleftrightarrow> v = PStr ''push'' \<or> v = PStr ''pull_request'' \<or> v = PStr ''merge''"

definition is_debug_request :: "request \<Rightarrow> bool" where
  "is_debug_request rq = (case rq of DebugInsert now \<Rightarrow> True | _ \<Rightarrow> False)"

text \<open>The ordinal suffix in the specification's words.\<close>

definition spec_ordinal_suffix :: "int \<Rightarrow> string" where
  "spec_ordinal_suffix d =
     (if 11 \<le> d \<and> d \<le> 20 then ''th''
      else if d mod 10 = 1 then ''st''
      else if d mod 10 = 2 then ''nd''
      else if d mod 10 = 3 then ''rd''
      else ''th'')"

section \<open>Example inputs\<close>

text \<open>Two clock readings: 1 April 2021, 21:30:00 and 21:30:01.\<close>

definition clock_a :: datetime where
  "clock_a = \<lparr>year = 2021, month = 4, day = 1, hour = 21, minute = 30, second = 0,
     microsecond = 0, tzinfo = None\<rparr>"

definition clock_b :: datetime where
  "clock_b = \<lparr>year = 2021, month = 4, day = 1, hour = 21, minute = 30, second = 1,
     microsecond = 0, tzinfo = None\<rparr>"

definition day_21 :: datetime where
  "day_21 = \<lparr>year = 2021, month = 4, day = 21, hour = 9, minute = 5, second = 0,
     microsecond = 0, tzinfo = None\<rparr>"

text \<open>Payloads: the bodies of requests, as Python values.\<close>

definition payload_push :: pyval where
  "payload_push = PDict [(''repository'', PDict [(''name'', PStr ''repo1'')]),
     (''pusher'', PDict [(''name'', PStr ''alice'')]),
     (''ref'', PStr ''refs/heads/main'')]"

definition payload_opened :: pyval where
  "payload_opened = PDict [(''action'', PStr ''opened''),
     (''pull_request'', PDict [(''base'', PDict [(''ref'', PStr ''refs/heads/main'')]),
        (''head'', PDict [(''ref'', PStr ''refs/heads/feature'')]),
        (''user'', PDict [(''login'', PStr ''bob'')])])]"


definition payload_merged_yes :: pyval where
  "payload_merged_yes = PDict [(''action'', PStr ''closed''),
     (''pull_request'', PDict [(''merged'', PStr ''yes'')])]"

definition payload_merged_text :: pyval where
  "payload_merged_text = PDict [(''action'', PStr ''closed''),
     (''pull_request'', PDict [(''merged'', PStr ''true''),
        (''merged_by'', PDict [(''login'', PStr ''carol'')])])]"

definition payload_closed :: pyval where
  "payload_closed = PDict [(''action'', PStr ''closed''),
     (''pull_request'', PDict [(''number'', PInt 7)])]"


definition payload_empty_name :: pyval where
  "payload_empty_name = PDict [(''pusher'', PDict [(''name'', PStr [])])]"

definition payload_login_number :: pyval where
  "payload_login_number = PDict [(''action'', PStr ''opened''),
     (''pull_request'', PDict [(''user'', PDict [(''login'', PInt 7)])])]"

definition payload_bare_prefix :: pyval where
  "payload_bare_prefix = PDict [(''action'', PStr ''opened''),
     (''pull_request'', PDict [(''base'', PDict [(''ref'', PStr ''refs/heads/'')])])]"

text \<open>A parser that rejects every string, for examples whose payload carries no timestamp.\<close>

definition rejecting_parser :: "string \<Rightarrow> datetime option" where
  "rejecting_parser s = None"

text \<open>
  Library functions for the examples: an object id printed as a number, a datetime printed to
  the second, a placeholder for the \<^verbatim>\<open>str\<close> of values that are not strings.
\<close>

definition iso_seconds :: "datetime \<Rightarrow> string" where
  "iso_seconds dt =
     dec (nat (year dt)) @ ''-'' @ pad2 (month dt) @ ''-'' @ pad2 (day dt) @ ''T''
       @ pad2 (hour dt) @ '':'' @ pad2 (minute dt) @ '':'' @ pad2 (second dt)"

definition str_placeholder :: "pyval \<Rightarrow> string" where
  "str_placeholder v = ''?''"

definition example_lib :: pylib where
  "example_lib = \<lparr>str_oid = dec, str_other = str_placeholder, isoformat = iso_seconds\<rparr>"

text \<open>
  Collections: one holding a document whose timestamp is a string, as another writer of the
  database can leave it, and one holding a document as \<^verbatim>\<open>handle_push\<close> builds it.
\<close>

definition collection_text_timestamp :: collection where
  "collection_text_timestamp =
     [(0, [(''action'', PStr ''push''), (''timestamp'', PStr ''soon''),
           (''created_at'', PDatetime clock_a)])]"

definition collection_push :: collection where
  "collection_push =
     [(0, [(''action'', PStr ''push''), (''author'', PStr ''alice''), (''repo'', PStr ''repo1''),
           (''from_branch'', PNone), (''to_branch'', PStr ''main''),
           (''timestamp'', PDatetime clock_a), (''created_at'', PDatetime clock_b)])]"

text \<open>
  Three documents inserted out of the order of their \<^verbatim>\<open>created_at\<close> (1 April 21:30:00,
  21 April, 1 April 21:30:01), and a collection of 101 documents.
\<close>

definition collection_three :: collection where
  "collection_three =
     [(0, [(''action'', PStr ''push''), (''created_at'', PDatetime clock_a)]),
      (1, [(''action'', PStr ''merge''), (''created_at'', PDatetime day_21)]),
      (2, [(''action'', PStr ''pull_request''), (''created_at'', PDatetime clock_b)])]"

definition collection_101 :: collection where
  "collection_101 = map (\<lambda>i. (i, [(''created_at'', PDatetime clock_a)])) [0..<101]"

section \<open>Properties of the branch resolver\<close>

lemma str_replace_absent:
  assumes "old \<noteq> []"
  shows "\<not> sublist old s \<Longrightarrow> str_replace s old new = s"
proof (induction s)
  case Nil
  then show ?case using assms by (simp add: str_replace.simps)
next
  case (Cons x xs)
  from Cons.prems have np: "\<not> prefix old (x # xs)"
    using prefix_imp_sublist by blast
  from Cons.prems have "\<not> sublist old xs"
    by (simp add: sublist_Cons_right)
  with Cons.IH have "str_replace xs old new = xs" by simp
  with np assms show ?case
    by (subst str_replace.simps) simp
qed

lemma ref_to_branch_falsy: "\<not> truthy v \<Longrightarrow> ref_to_branch v = Inr ''unknown''"
  by (simp add: ref_to_branch_def)

lemma ref_to_branch_plain:
  "s \<noteq> [] \<Longrightarrow> \<not> prefix ''refs/heads/'' s \<Longrightarrow> ref_to_branch (PStr s) = Inr s"
  by (simp add: ref_to_branch_def)

text \<open>
  A ref that is the prefix followed by a name in which the prefix does not occur again
  resolves to that name.
\<close>

lemma ref_to_branch_strip:
  assumes "\<not> sublist ''refs/heads/'' b"
  shows "ref_to_branch (PStr (''refs/heads/'' @ b)) = Inr b"
proof -
  have "str_replace (''refs/heads/'' @ b) ''refs/heads/'' [] = str_replace b ''refs/heads/'' []"
    by (subst str_replace.simps) simp
  also have "\<dots> = b" using assms by (simp add: str_replace_absent)
  finally show ?thesis by (simp add: ref_to_branch_def)
qed

text \<open>
  C3: a ref that starts with \<^verbatim>\<open>refs/heads/\<close> should resolve to the ref with exactly that one
  leading prefix removed. \<^verbatim>\<open>ref_to_branch\<close> calls \<^verbatim>\<open>replace\<close>, which removes every occurrence:
  the ref of the branch \<^verbatim>\<open>a/refs/heads/b\<close> resolves to \<^verbatim>\<open>a/b\<close>, not to \<^verbatim>\<open>a/refs/heads/b\<close>.
\<close>

theorem ref_to_branch_removes_every_occurrence:
  "ref_to_branch (PStr ''refs/heads/a/refs/heads/b'') = Inr ''a/b''"
  by (simp add: ref_to_branch_def str_replace.simps)

section \<open>Properties of the timestamp format\<close>

text \<open>
  What holds of every output of \<^verbatim>\<open>format_timestamp\<close>: it ends in \<^verbatim>\<open>AM UTC\<close> or \<^verbatim>\<open>PM UTC\<close>
  after the hour, a colon and the minute, and the minute of a valid time has two digits.
\<close>

lemma pad2_two_digits:
  assumes "0 \<le> n" and "n < 100"
  shows "length (pad2 n) = 2"
proof (cases "n < 10")
  case True
  with assms have "nat n < 10" by simp
  then have "dec (nat n) = [digit_char (nat n)]" by (subst dec.simps) simp
  with True show ?thesis by (simp add: pad2_def)
next
  case False
  with assms have a: "\<not> nat n < 10" and b: "nat n div 10 < 10" by simp_all
  from b have "dec (nat n div 10) = [digit_char (nat n div 10)]" by (subst dec.simps) simp
  with a have "dec (nat n) = [digit_char (nat n div 10), digit_char (nat n mod 10)]"
    by (subst dec.simps) simp
  with False show ?thesis by (simp add: pad2_def)
qed

lemma format_timestamp_tail:
  "format_timestamp now v =
     date_str (case v of PDatetime d \<Rightarrow> d | _ \<Rightarrow> now) @ '' - ''
       @ dec (nat (if hour (case v of PDatetime d \<Rightarrow> d | _ \<Rightarrow> now) mod 12 = 0 then 12
                   else hour (case v of PDatetime d \<Rightarrow> d | _ \<Rightarrow> now) mod 12))
       @ '':'' @ pad2 (minute (case v of PDatetime d \<Rightarrow> d | _ \<Rightarrow> now))
       @ (if hour (case v of PDatetime d \<Rightarrow> d | _ \<Rightarrow> now) < 12 then '' AM UTC'' else '' PM UTC'')"
  by (simp add: format_timestamp_def time_str_def Let_def)

text \<open>
  C5: the instant 1 April 2021, 21:30 should format to \<^verbatim>\<open>1st April 2021 - 9:30 PM UTC\<close>, the
  example of the docstring. The code prints the day with \<^verbatim>\<open>%d\<close>, which pads it to two digits:
  the result is \<^verbatim>\<open>01st April 2021 - 9:30 PM UTC\<close>.
\<close>

theorem format_timestamp_pads_day:
  "format_timestamp clock_b (PDatetime clock_a) = ''01st April 2021 - 9:30 PM UTC''"
  by (simp add: format_timestamp_def date_str_def time_str_def clock_a_def suffix_of_day_def
      strftime_d_def strftime_B_def strftime_Y_def pad2_def dec.simps digit_char_def
      month_names_def Let_def)

lemma suffix_of_day_examples:
  "map suffix_of_day [1, 2, 3, 4, 11, 12, 13, 20, 21, 22, 23, 24, 30, 31] =
     [''st'', ''nd'', ''rd'', ''th'', ''th'', ''th'', ''th'', ''th'', ''st'', ''nd'', ''rd'', ''th'',
      ''th'', ''st'']"
  by (simp add: suffix_of_day_def)

text \<open>
  C6: for every day of the month from 1 to 31, the suffix that \<^verbatim>\<open>format_timestamp\<close> puts after
  the day is the one of the specification's rule: \<^verbatim>\<open>th\<close> for the days 11 to 20, and otherwise
  \<^verbatim>\<open>st\<close>, \<^verbatim>\<open>nd\<close>, \<^verbatim>\<open>rd\<close> for a last digit of 1, 2, 3 and \<^verbatim>\<open>th\<close> for any other last digit.
\<close>

theorem format_timestamp_suffix_rule:
  assumes "1 \<le> day dt" and "day dt \<le> 31"
  shows "suffix_of_day (day dt) = spec_ordinal_suffix (day dt)
    \<and> format_timestamp now (PDatetime dt) =
        strftime_d dt @ spec_ordinal_suffix (day dt) @ '' '' @ strftime_B dt @ '' ''
          @ strftime_Y dt @ '' - '' @ time_str dt @ '' UTC''"
proof -
  have all: "\<forall>k\<in>set [1..31]. suffix_of_day k = spec_ordinal_suffix k"
    by code_simp
  from assms have "day dt \<in> set [1..31]" by simp
  with all have eq: "suffix_of_day (day dt) = spec_ordinal_suffix (day dt)" by blast
  then show ?thesis
    by (simp add: format_timestamp_def date_str_def)
qed

theorem format_timestamp_suffix_rule_witness:
  "1 \<le> day day_21 \<and> day day_21 \<le> 31
   \<and> suffix_of_day (day day_21) = ''st''
   \<and> format_timestamp clock_a (PDatetime day_21) = ''21st April 2021 - 9:05 AM UTC''"
  using format_timestamp_suffix_rule [of day_21 clock_a]
  by (simp add: day_21_def spec_ordinal_suffix_def strftime_d_def strftime_B_def strftime_Y_def
      time_str_def pad2_def dec.simps digit_char_def month_names_def Let_def)

section \<open>Properties of the handlers\<close>

lemma bind_err_Inr_iff: "bind_err m f = Inr r \<longleftrightarrow> (\<exists>v. m = Inr v \<and> f v = Inr r)"
  by (cases m) (simp_all add: bind_err_def)

lemma bind_err_Inr [simp]: "bind_err (Inr v) f = f v"
  by (simp add: bind_err_def)

lemma bind_err_Inl [simp]: "bind_err (Inl e) f = Inl e"
  by (simp add: bind_err_def)

lemma py_get_dict [simp]:
  "py_get (PDict kvs) k dflt = Inr (case map_of kvs k of Some v \<Rightarrow> v | None \<Rightarrow> dflt)"
  by (simp add: py_get_def)

lemma py_get_Inr_dict: "py_get obj k dflt = Inr v \<Longrightarrow> \<exists>kvs. obj = PDict kvs"
  by (cases obj) (simp_all add: py_get_def)

lemma falsy_field_at: "\<not> truthy w \<Longrightarrow> field_at w (k # ks) = None"
  by (cases w) simp_all

lemma pr_fields:
  assumes "py_or (case map_of kvs ''pull_request'' of Some v \<Rightarrow> v | None \<Rightarrow> PNone) (PDict []) = PDict pkvs"
  shows "field_at (PDict kvs) (''pull_request'' # k # ks) = field_at (PDict pkvs) (k # ks)"
proof (cases "map_of kvs ''pull_request''")
  case None
  with assms show ?thesis by (simp add: py_or_def)
next
  case (Some w)
  show ?thesis
  proof (cases "truthy w")
    case True
    with Some assms show ?thesis by (simp add: py_or_def)
  next
    case False
    with Some assms have "pkvs = []" by (simp add: py_or_def)
    with Some False show ?thesis by (simp add: falsy_field_at)
  qed
qed

text \<open>The first three reads of the handler, and the branch they select.\<close>

lemma handle_pull_request_head:
  assumes "handle_pull_request f t1 t2 p = Inr r"
  shows "\<exists>kvs pkvs. p = PDict kvs
    \<and> py_or (case map_of kvs ''pull_request'' of Some v \<Rightarrow> v | None \<Rightarrow> PNone) (PDict []) = PDict pkvs"
proof -
  from assms obtain pr0 where 1: "py_get p ''pull_request'' PNone = Inr pr0"
    by (auto simp: handle_pull_request_def bind_err_Inr_iff)
  then obtain kvs where p: "p = PDict kvs" using py_get_Inr_dict by blast
  from assms p obtain m where "py_get (py_or (case map_of kvs ''pull_request'' of Some v \<Rightarrow> v | None \<Rightarrow> PNone) (PDict [])) ''merged'' (PBool False) = Inr m"
    by (auto simp: handle_pull_request_def bind_err_Inr_iff Let_def)
  then obtain pkvs where "py_or (case map_of kvs ''pull_request'' of Some v \<Rightarrow> v | None \<Rightarrow> PNone) (PDict []) = PDict pkvs"
    using py_get_Inr_dict by blast
  with p show ?thesis by blast
qed

lemma action_is_dict:
  "action_is (PDict kvs) a \<longleftrightarrow> (case map_of kvs ''action'' of Some v \<Rightarrow> v | None \<Rightarrow> PNone) = PStr a"
  by (simp add: action_is_def split: option.splits)

lemma merged_truthy_dict:
  assumes "py_or (case map_of kvs ''pull_request'' of Some v \<Rightarrow> v | None \<Rightarrow> PNone) (PDict []) = PDict pkvs"
  shows "merged_truthy (PDict kvs) \<longleftrightarrow> truthy (case map_of pkvs ''merged'' of Some v \<Rightarrow> v | None \<Rightarrow> PBool False)"
  unfolding merged_truthy_def pr_fields [OF assms] by (simp split: option.splits)

lemma handle_pull_request_classes:
  assumes "handle_pull_request f t1 t2 p = Inr r"
  shows "(is_record r ''merge'' \<longleftrightarrow> action_is p ''closed'' \<and> merged_truthy p)
    \<and> (is_record r ''pull_request'' \<longleftrightarrow>
         \<not> (action_is p ''closed'' \<and> merged_truthy p)
         \<and> (action_is p ''opened'' \<or> action_is p ''synchronize''))
    \<and> (r = None \<longleftrightarrow>
         \<not> (action_is p ''closed'' \<and> merged_truthy p)
         \<and> \<not> (action_is p ''opened'' \<or> action_is p ''synchronize''))"
proof -
  from handle_pull_request_head [OF assms] obtain kvs pkvs where p: "p = PDict kvs"
    and pr: "py_or (case map_of kvs ''pull_request'' of Some v \<Rightarrow> v | None \<Rightarrow> PNone) (PDict []) = PDict pkvs"
    by blast
  note mt = merged_truthy_dict [OF pr]
  from assms show ?thesis
    unfolding p handle_pull_request_def
    by (auto simp: Let_def pr mt action_is_dict bind_err_Inr_iff is_record_def doc_get_def
        split: if_splits)
qed


lemma py_or_truthy: "truthy a \<Longrightarrow> py_or a b = a"
  by (simp add: py_or_def)

lemma py_or_falsy: "\<not> truthy a \<Longrightarrow> py_or a b = b"
  by (simp add: py_or_def)

text \<open>Reading \<open>k\<close> under a value that went through \<^verbatim>\<open>or {}\<close>.\<close>

lemma or_dict_field:
  assumes "py_or w (PDict []) = PDict ukvs"
  shows "field_at w (k # ks) = field_at (PDict ukvs) (k # ks)"
proof (cases "truthy w")
  case True
  with assms show ?thesis by (simp add: py_or_truthy)
next
  case False
  with assms have "ukvs = []" by (simp add: py_or_falsy)
  with False show ?thesis by (simp add: falsy_field_at)
qed

lemma login_value:
  assumes "py_or (case map_of kvs k of Some v \<Rightarrow> v | None \<Rightarrow> PNone) (PDict []) = PDict ukvs"
  shows "value_at (PDict kvs) [k, ''login'']
      = (case map_of ukvs ''login'' of Some v \<Rightarrow> v | None \<Rightarrow> PNone)"
proof (cases "map_of kvs k")
  case None
  with assms have "ukvs = []" by (simp add: py_or_falsy)
  with None show ?thesis by (simp add: value_at_def)
next
  case (Some w)
  with assms have "py_or w (PDict []) = PDict ukvs" by simp
  from or_dict_field [OF this] Some show ?thesis
    by (simp add: value_at_def split: option.splits)
qed

lemma author_of_spec:
  assumes pr: "py_or (case map_of kvs ''pull_request'' of Some v \<Rightarrow> v | None \<Rightarrow> PNone) (PDict []) = PDict pkvs"
    and a: "author_of (PDict pkvs) k (PDict kvs) = Inr a"
  shows "a = spec_author (PDict kvs) k"
proof -
  from a obtain ukvs
    where u: "py_or (case map_of pkvs k of Some v \<Rightarrow> v | None \<Rightarrow> PNone) (PDict []) = PDict ukvs"
    unfolding author_of_def by (auto simp: bind_err_Inr_iff dest: py_get_Inr_dict)
  have "value_at (PDict kvs) [''pull_request'', k, ''login'']
      = value_at (PDict pkvs) [k, ''login'']"
    unfolding value_at_def pr_fields [OF pr] ..
  then have l1: "value_at (PDict kvs) [''pull_request'', k, ''login'']
      = (case map_of ukvs ''login'' of Some v \<Rightarrow> v | None \<Rightarrow> PNone)"
    using login_value [OF u] by simp
  show ?thesis
  proof (cases "truthy (value_at (PDict kvs) [''pull_request'', k, ''login''])")
    case True
    with a l1 show ?thesis
      unfolding author_of_def spec_author_def by (simp add: u)
  next
    case False
    with a l1 obtain skvs
      where sd: "py_or (case map_of kvs ''sender'' of Some v \<Rightarrow> v | None \<Rightarrow> PNone) (PDict []) = PDict skvs"
      unfolding author_of_def by (auto simp: u bind_err_Inr_iff dest: py_get_Inr_dict)
    note l2 = login_value [OF sd]
    from a False l1 show ?thesis
      unfolding author_of_def spec_author_def
      by (cases "truthy (case map_of skvs ''login'' of Some v \<Rightarrow> v | None \<Rightarrow> PNone)")
        (simp_all add: u sd l2 py_or_truthy py_or_falsy)
  qed
qed

lemma spec_author_truthy: "truthy (spec_author p k)"
  by (simp add: spec_author_def)

lemma spec_author_string:
  assumes "opt_str p [''pull_request'', k, ''login'']" and "opt_str p [''sender'', ''login'']"
  shows "nonempty_str (spec_author p k)"
  using assms
  by (auto simp: spec_author_def opt_str_def value_at_def is_str_def nonempty_str_def
      split: option.splits pyval.splits)


lemma side_ref:
  assumes pr: "py_or (case map_of kvs ''pull_request'' of Some v \<Rightarrow> v | None \<Rightarrow> PNone) (PDict []) = PDict pkvs"
    and r: "py_get (case map_of pkvs side of Some v \<Rightarrow> v | None \<Rightarrow> PDict []) ''ref'' (PStr []) = Inr r"
  shows "r = (case field_at (PDict kvs) [''pull_request'', side, ''ref''] of
                Some v \<Rightarrow> v | None \<Rightarrow> PStr [])"
proof (cases "map_of pkvs side")
  case None
  with r show ?thesis unfolding pr_fields [OF pr] by simp
next
  case (Some w)
  with r obtain bk where "w = PDict bk" by (auto dest: py_get_Inr_dict)
  with Some r show ?thesis unfolding pr_fields [OF pr] by (auto split: option.splits)
qed

lemma or_get_value:
  assumes "py_get (py_or (case map_of kvs k of Some v \<Rightarrow> v | None \<Rightarrow> PNone) (PDict [])) k2 dflt = Inr x"
  shows "x = (case field_at (PDict kvs) [k, k2] of Some v \<Rightarrow> v | None \<Rightarrow> dflt)"
proof -
  from assms obtain ukvs
    where u: "py_or (case map_of kvs k of Some v \<Rightarrow> v | None \<Rightarrow> PNone) (PDict []) = PDict ukvs"
    by (auto dest: py_get_Inr_dict)
  show ?thesis
  proof (cases "map_of kvs k")
    case None
    with u have "ukvs = []" by (simp add: py_or_falsy)
    with assms u None show ?thesis by simp
  next
    case (Some w)
    with u have "py_or w (PDict []) = PDict ukvs" by simp
    from or_dict_field [OF this] Some assms u show ?thesis
      by (simp split: option.splits)
  qed
qed

lemma handle_pull_request_record:
  assumes "handle_pull_request f t1 t2 p = Inr (Some d)"
  shows "\<exists>tag k tb fb ts.
      d = [(''action'', PStr tag), (''author'', spec_author p k), (''to_branch'', PStr tb),
           (''from_branch'', PStr fb), (''timestamp'', PDatetime ts),
           (''repo'', (case field_at p [''repository'', ''full_name''] of
                         Some v \<Rightarrow> v | None \<Rightarrow> PStr [])),
           (''created_at'', PDatetime t2)]
      \<and> (tag = ''merge'' \<and> k = ''merged_by'' \<or> tag = ''pull_request'' \<and> k = ''user'')
      \<and> ref_to_branch (case field_at p [''pull_request'', ''base'', ''ref''] of
                          Some v \<Rightarrow> v | None \<Rightarrow> PStr []) = Inr tb
      \<and> ref_to_branch (case field_at p [''pull_request'', ''head'', ''ref''] of
                          Some v \<Rightarrow> v | None \<Rightarrow> PStr []) = Inr fb"
proof -
  from handle_pull_request_head [OF assms] obtain kvs pkvs where p: "p = PDict kvs"
    and pr: "py_or (case map_of kvs ''pull_request'' of Some v \<Rightarrow> v | None \<Rightarrow> PNone) (PDict []) = PDict pkvs"
    by blast
  from assms show ?thesis
    unfolding p handle_pull_request_def
    by (auto simp: Let_def pr bind_err_Inr_iff split: if_splits
        dest!: side_ref [OF pr] author_of_spec [OF pr] or_get_value)
qed

lemma or_dict_total:
  assumes "opt_dict (PDict kvs) [k]"
  shows "\<exists>kk. py_or (case map_of kvs k of Some v \<Rightarrow> v | None \<Rightarrow> PNone) (PDict []) = PDict kk"
  using assms
  by (auto simp: opt_dict_def is_dict_def py_or_def split: option.splits pyval.splits)

lemma shaped_pull_request_view:
  assumes "shaped_pull_request p"
  shows "\<exists>kvs pkvs. p = PDict kvs
    \<and> py_or (case map_of kvs ''pull_request'' of Some v \<Rightarrow> v | None \<Rightarrow> PNone) (PDict []) = PDict pkvs"
proof -
  from assms obtain kvs where p: "p = PDict kvs"
    by (auto simp: shaped_pull_request_def is_dict_def split: pyval.splits)
  from assms p have "opt_dict (PDict kvs) [''pull_request'']"
    by (simp add: shaped_pull_request_def)
  from or_dict_total [OF this] p show ?thesis by blast
qed

lemma opt_dict_under:
  assumes pr: "py_or (case map_of kvs ''pull_request'' of Some v \<Rightarrow> v | None \<Rightarrow> PNone) (PDict []) = PDict pkvs"
  shows "opt_dict (PDict kvs) (''pull_request'' # k # ks) = opt_dict (PDict pkvs) (k # ks)"
    and "opt_str (PDict kvs) (''pull_request'' # k # ks) = opt_str (PDict pkvs) (k # ks)"
  unfolding opt_dict_def opt_str_def pr_fields [OF pr] by simp_all

lemma ref_to_branch_total:
  assumes "is_str v"
  shows "\<exists>b. ref_to_branch v = Inr b"
  using assms by (cases v) (simp_all add: is_str_def ref_to_branch_def)

lemma branch_total:
  assumes "opt_dict (PDict pkvs) [side]" and "opt_str (PDict pkvs) [side, ''ref'']"
  shows "\<exists>r tb. py_get (case map_of pkvs side of Some v \<Rightarrow> v | None \<Rightarrow> PDict []) ''ref'' (PStr []) = Inr r
    \<and> ref_to_branch r = Inr tb"
proof (cases "map_of pkvs side")
  case None
  then show ?thesis by (simp add: ref_to_branch_def)
next
  case (Some w)
  with assms(1) obtain bk where w: "w = PDict bk"
    by (auto simp: opt_dict_def is_dict_def split: pyval.splits)
  from assms(2) Some w have "is_str (case map_of bk ''ref'' of Some v \<Rightarrow> v | None \<Rightarrow> PStr [])"
    by (auto simp: opt_str_def is_str_def split: option.splits)
  from ref_to_branch_total [OF this] Some w show ?thesis by simp
qed

lemma author_of_total:
  assumes "opt_dict (PDict pkvs) [k]" and "opt_dict (PDict kvs) [''sender'']"
  shows "\<exists>a. author_of (PDict pkvs) k (PDict kvs) = Inr a"
proof -
  from or_dict_total [OF assms(1)] obtain ukvs
    where u: "py_or (case map_of pkvs k of Some v \<Rightarrow> v | None \<Rightarrow> PNone) (PDict []) = PDict ukvs"
    by blast
  from or_dict_total [OF assms(2)] obtain skvs
    where sd: "py_or (case map_of kvs ''sender'' of Some v \<Rightarrow> v | None \<Rightarrow> PNone) (PDict []) = PDict skvs"
    by blast
  show ?thesis by (simp add: author_of_def u sd)
qed

lemma parse_github_timestamp_total:
  assumes "v = PNone \<or> is_str v"
  shows "\<exists>t. parse_github_timestamp f now v = Inr t"
  using assms
  by (cases v)
    (auto simp: parse_github_timestamp_def py_replace_def is_str_def split: option.splits)

lemma time_field_shape:
  assumes "opt_str (PDict pkvs) [k]"
  shows "(case map_of pkvs k of Some v \<Rightarrow> v | None \<Rightarrow> PNone) = PNone
    \<or> is_str (case map_of pkvs k of Some v \<Rightarrow> v | None \<Rightarrow> PNone)"
  using assms by (auto simp: opt_str_def split: option.splits)

lemma repo_total:
  assumes "opt_dict (PDict kvs) [''repository'']"
  shows "\<exists>rp. py_get (py_or (case map_of kvs ''repository'' of Some v \<Rightarrow> v | None \<Rightarrow> PNone) (PDict []))
      ''full_name'' (PStr []) = Inr rp"
proof -
  from or_dict_total [OF assms] obtain rk
    where "py_or (case map_of kvs ''repository'' of Some v \<Rightarrow> v | None \<Rightarrow> PNone) (PDict []) = PDict rk"
    by blast
  then show ?thesis by simp
qed

lemma handle_pull_request_total:
  assumes "shaped_pull_request p"
  shows "\<exists>r. handle_pull_request f t1 t2 p = Inr r"
proof -
  from shaped_pull_request_view [OF assms] obtain kvs pkvs where p: "p = PDict kvs"
    and pr: "py_or (case map_of kvs ''pull_request'' of Some v \<Rightarrow> v | None \<Rightarrow> PNone) (PDict []) = PDict pkvs"
    by blast
  note under = opt_dict_under [OF pr]
  from assms have sh: "opt_dict (PDict pkvs) [''base'']" "opt_str (PDict pkvs) [''base'', ''ref'']"
    "opt_dict (PDict pkvs) [''head'']" "opt_str (PDict pkvs) [''head'', ''ref'']"
    "opt_dict (PDict pkvs) [''merged_by'']" "opt_dict (PDict pkvs) [''user'']"
    "opt_str (PDict pkvs) [''merged_at'']" "opt_str (PDict pkvs) [''created_at'']"
    "opt_dict (PDict kvs) [''sender'']" "opt_dict (PDict kvs) [''repository'']"
    unfolding shaped_pull_request_def p under by simp_all
  from branch_total [OF sh(1,2)] obtain r1 tb
    where b: "py_get (case map_of pkvs ''base'' of Some v \<Rightarrow> v | None \<Rightarrow> PDict []) ''ref'' (PStr []) = Inr r1"
      "ref_to_branch r1 = Inr tb" by blast
  from branch_total [OF sh(3,4)] obtain r2 fb
    where h: "py_get (case map_of pkvs ''head'' of Some v \<Rightarrow> v | None \<Rightarrow> PDict []) ''ref'' (PStr []) = Inr r2"
      "ref_to_branch r2 = Inr fb" by blast
  from author_of_total [OF sh(5) sh(9)] obtain a1
    where a1: "author_of (PDict pkvs) ''merged_by'' (PDict kvs) = Inr a1" by blast
  from author_of_total [OF sh(6) sh(9)] obtain a2
    where a2: "author_of (PDict pkvs) ''user'' (PDict kvs) = Inr a2" by blast
  from parse_github_timestamp_total [OF time_field_shape [OF sh(7)]] obtain ts1
    where ts1: "parse_github_timestamp f t1 (case map_of pkvs ''merged_at'' of Some v \<Rightarrow> v | None \<Rightarrow> PNone) = Inr ts1"
    by blast
  from parse_github_timestamp_total [OF time_field_shape [OF sh(8)]] obtain ts2
    where ts2: "parse_github_timestamp f t1 (case map_of pkvs ''created_at'' of Some v \<Rightarrow> v | None \<Rightarrow> PNone) = Inr ts2"
    by blast
  from repo_total [OF sh(10)] obtain rp
    where rp: "py_get (py_or (case map_of kvs ''repository'' of Some v \<Rightarrow> v | None \<Rightarrow> PNone) (PDict []))
      ''full_name'' (PStr []) = Inr rp" by blast
  show ?thesis
    unfolding p handle_pull_request_def
    by (simp add: Let_def pr b h a1 a2 ts1 ts2 rp)
qed



lemma handle_push_record:
  assumes "handle_push t1 t2 p = Inr d"
  shows "\<exists>b. d = [(''action'', PStr ''push''),
        (''author'', (case field_at p [''pusher'', ''name''] of
                        Some v \<Rightarrow> v | None \<Rightarrow> PStr ''unknown-user'')),
        (''repo'', (case field_at p [''repository'', ''name''] of
                      Some v \<Rightarrow> v | None \<Rightarrow> PStr ''unknown-repo'')),
        (''from_branch'', PNone),
        (''to_branch'', PStr b),
        (''timestamp'', PDatetime t1),
        (''created_at'', PDatetime t2)]
    \<and> py_replace (case field_at p [''ref''] of Some v \<Rightarrow> v | None \<Rightarrow> PStr [])
          ''refs/heads/'' [] = Inr b"
proof -
  from assms obtain kvs where p: "p = PDict kvs"
    by (auto simp: handle_push_def bind_err_Inr_iff dest: py_get_Inr_dict)
  from assms obtain rk where rk: "(case map_of kvs ''repository'' of Some v \<Rightarrow> v | None \<Rightarrow> PDict []) = PDict rk"
    unfolding p handle_push_def by (auto simp: bind_err_Inr_iff dest: py_get_Inr_dict)
  from assms obtain pk where pk: "(case map_of kvs ''pusher'' of Some v \<Rightarrow> v | None \<Rightarrow> PDict []) = PDict pk"
    unfolding p handle_push_def by (auto simp: bind_err_Inr_iff rk dest: py_get_Inr_dict)
  have r: "(case field_at p [''repository'', ''name''] of Some v \<Rightarrow> v | None \<Rightarrow> PStr ''unknown-repo'')
      = (case map_of rk ''name'' of Some v \<Rightarrow> v | None \<Rightarrow> PStr ''unknown-repo'')"
    using rk unfolding p by (auto split: option.splits)
  have a: "(case field_at p [''pusher'', ''name''] of Some v \<Rightarrow> v | None \<Rightarrow> PStr ''unknown-user'')
      = (case map_of pk ''name'' of Some v \<Rightarrow> v | None \<Rightarrow> PStr ''unknown-user'')"
    using pk unfolding p by (auto split: option.splits)
  have f: "(case field_at p [''ref''] of Some v \<Rightarrow> v | None \<Rightarrow> PStr [])
      = (case map_of kvs ''ref'' of Some v \<Rightarrow> v | None \<Rightarrow> PStr [])"
    unfolding p by (auto split: option.splits)
  from assms show ?thesis
    unfolding r a f unfolding p handle_push_def
    by (auto simp: bind_err_Inr_iff rk pk)
qed


lemma ref_to_branch_spec:
  assumes "plain_ref r"
    and "ref_to_branch (case r of Some v \<Rightarrow> v | None \<Rightarrow> PStr []) = Inr b"
  shows "b = spec_resolve r \<and> b \<noteq> []"
proof (cases r)
  case None
  with assms(2) show ?thesis by (auto simp: ref_to_branch_def spec_resolve_def)
next
  case (Some v)
  show ?thesis
  proof (cases "truthy v")
    case False
    with Some assms(2) have "b = ''unknown''" by (simp add: ref_to_branch_falsy)
    moreover from False have "spec_resolve (Some v) = ''unknown''"
      by (cases v) (simp_all add: spec_resolve_def)
    ultimately show ?thesis using Some by auto
  next
    case True
    with Some assms(1) obtain s where v: "v = PStr s"
      by (cases v) (simp_all add: plain_ref_def)
    with True have ne: "s \<noteq> []" by simp
    show ?thesis
    proof (cases "prefix ''refs/heads/'' s")
      case False
      with Some v ne assms(2) show ?thesis
        by (simp add: ref_to_branch_plain spec_resolve_def)
    next
      case True
      then obtain n where s: "s = ''refs/heads/'' @ n" by (auto simp: prefix_def)
      with Some v True assms(1) have n: "n \<noteq> []" "\<not> sublist ''refs/heads/'' n"
        by (simp_all add: plain_ref_def)
      from ref_to_branch_strip [OF n(2)] Some v s assms(2) have "b = n" by simp
      with Some v s n(1) show ?thesis by (simp add: spec_resolve_def)
    qed
  qed
qed

section \<open>Classification of pull-request events\<close>

text \<open>
  C1, as the code has it: a pull-request payload whose fields are missing or well shaped is
  always normalised without an exception, and whenever the handler returns, its result is a
  merge record exactly when the action is \<^verbatim>\<open>closed\<close> and \<^verbatim>\<open>pull_request.merged\<close> is truthy, a
  pull-request record exactly when the action is \<^verbatim>\<open>opened\<close> or \<^verbatim>\<open>synchronize\<close>, and no record
  exactly in every other case.
\<close>

theorem handle_pull_request_classification:
  "(shaped_pull_request p \<longrightarrow> (\<exists>r. handle_pull_request f t1 t2 p = Inr r))
   \<and> (\<forall>r. handle_pull_request f t1 t2 p = Inr r \<longrightarrow>
        (is_record r ''merge'' \<longleftrightarrow> action_is p ''closed'' \<and> merged_truthy p)
      \<and> (is_record r ''pull_request'' \<longleftrightarrow>
           action_is p ''opened'' \<or> action_is p ''synchronize'')
      \<and> (r = None \<longleftrightarrow>
           \<not> (action_is p ''closed'' \<and> merged_truthy p)
           \<and> \<not> (action_is p ''opened'' \<or> action_is p ''synchronize'')))"
proof (intro conjI allI impI)
  assume "shaped_pull_request p"
  then show "\<exists>r. handle_pull_request f t1 t2 p = Inr r"
    by (rule handle_pull_request_total)
next
  fix r assume r: "handle_pull_request f t1 t2 p = Inr r"
  note c = handle_pull_request_classes [OF r]
  from c show "is_record r ''merge'' \<longleftrightarrow> action_is p ''closed'' \<and> merged_truthy p"
    by blast
  have "\<not> (action_is p ''closed'' \<and> (action_is p ''opened'' \<or> action_is p ''synchronize''))"
    by (auto simp: action_is_def)
  with c show "is_record r ''pull_request'' \<longleftrightarrow>
      action_is p ''opened'' \<or> action_is p ''synchronize''"
    by blast
  from c show "r = None \<longleftrightarrow>
      \<not> (action_is p ''closed'' \<and> merged_truthy p)
      \<and> \<not> (action_is p ''opened'' \<or> action_is p ''synchronize'')"
    by blast
qed

theorem handle_pull_request_classification_witness:
  "shaped_pull_request payload_opened
   \<and> handle_pull_request rejecting_parser clock_a clock_b payload_opened =
       Inr (Some [(''action'', PStr ''pull_request''), (''author'', PStr ''bob''),
                  (''to_branch'', PStr ''main''), (''from_branch'', PStr ''feature''),
                  (''timestamp'', PDatetime clock_a), (''repo'', PStr []),
                  (''created_at'', PDatetime clock_b)])
   \<and> is_record (Some [(''action'', PStr ''pull_request''), (''author'', PStr ''bob''),
                  (''to_branch'', PStr ''main''), (''from_branch'', PStr ''feature''),
                  (''timestamp'', PDatetime clock_a), (''repo'', PStr []),
                  (''created_at'', PDatetime clock_b)]) ''pull_request''
   \<and> action_is payload_opened ''opened''"
  using handle_pull_request_classification [of payload_opened rejecting_parser clock_a clock_b]
  by (simp add: payload_opened_def shaped_pull_request_def opt_dict_def opt_str_def is_dict_def
      is_str_def handle_pull_request_def py_or_def ref_to_branch_def str_replace.simps
      author_of_def parse_github_timestamp_def is_record_def doc_get_def action_is_def)

text \<open>
  The claim asks for \<^verbatim>\<open>merged\<close> to equal \<^verbatim>\<open>true\<close>: a closed pull request whose \<^verbatim>\<open>merged\<close>
  field is the string \<^verbatim>\<open>yes\<close> is classified as a merge all the same.
\<close>

theorem merged_string_counterexample:
  "handle_pull_request rejecting_parser clock_a clock_b payload_merged_yes =
       Inr (Some [(''action'', PStr ''merge''), (''author'', PStr ''Unknown''),
                  (''to_branch'', PStr ''unknown''), (''from_branch'', PStr ''unknown''),
                  (''timestamp'', PDatetime clock_a), (''repo'', PStr []),
                  (''created_at'', PDatetime clock_b)])
   \<and> field_at payload_merged_yes [''pull_request'', ''merged''] = Some (PStr ''yes'')
   \<and> PStr ''yes'' \<noteq> PBool True"
  by (simp add: payload_merged_yes_def handle_pull_request_def py_or_def ref_to_branch_def
      author_of_def)

text \<open>
  C10: for a pull-request payload whose action is \<^verbatim>\<open>closed\<close>, the merge branch is taken whenever
  \<^verbatim>\<open>pull_request.merged\<close> is truthy, whatever its type: the handler never returns the Ignore
  outcome then, any record it returns is a merge record, and it does return one when the
  payload is well shaped. When the \<^verbatim>\<open>merged\<close> field is absent the event is ignored.
\<close>

theorem handle_pull_request_closed:
  assumes "action_is p ''closed''"
  shows "(merged_truthy p \<longrightarrow>
            handle_pull_request f t1 t2 p \<noteq> Inr None
          \<and> (\<forall>d. handle_pull_request f t1 t2 p = Inr (Some d) \<longrightarrow>
                doc_get d ''action'' = PStr ''merge'')
          \<and> (shaped_pull_request p \<longrightarrow> (\<exists>d. handle_pull_request f t1 t2 p = Inr (Some d))))
    \<and> (field_at p [''pull_request'', ''merged''] = None \<longrightarrow>
            (\<forall>r. handle_pull_request f t1 t2 p = Inr r \<longrightarrow> r = None)
          \<and> (shaped_pull_request p \<longrightarrow> handle_pull_request f t1 t2 p = Inr None))"
proof (intro conjI impI allI)
  assume m: "merged_truthy p"
  show "handle_pull_request f t1 t2 p \<noteq> Inr None"
  proof
    assume "handle_pull_request f t1 t2 p = Inr None"
    from handle_pull_request_classes [OF this] assms m show False by simp
  qed
  show "doc_get d ''action'' = PStr ''merge''"
    if "handle_pull_request f t1 t2 p = Inr (Some d)" for d
    using handle_pull_request_classes [OF that] assms m by (simp add: is_record_def)
  show "\<exists>d. handle_pull_request f t1 t2 p = Inr (Some d)" if "shaped_pull_request p"
  proof -
    from handle_pull_request_total [OF that] obtain r
      where r: "handle_pull_request f t1 t2 p = Inr r" by blast
    from handle_pull_request_classes [OF r] assms m have "r \<noteq> None" by simp
    with r show ?thesis by auto
  qed
next
  assume n: "field_at p [''pull_request'', ''merged''] = None"
  then have nm: "\<not> merged_truthy p" by (simp add: merged_truthy_def)
  from assms have no: "\<not> (action_is p ''opened'' \<or> action_is p ''synchronize'')"
    by (auto simp: action_is_def)
  show "r = None" if "handle_pull_request f t1 t2 p = Inr r" for r
    using handle_pull_request_classes [OF that] nm no by simp
  show "handle_pull_request f t1 t2 p = Inr None" if "shaped_pull_request p"
  proof -
    from handle_pull_request_total [OF that] obtain r
      where r: "handle_pull_request f t1 t2 p = Inr r" by blast
    from handle_pull_request_classes [OF r] nm no have "r = None" by simp
    with r show ?thesis by simp
  qed
qed

theorem handle_pull_request_closed_witness:
  "action_is payload_merged_text ''closed''
   \<and> merged_truthy payload_merged_text
   \<and> field_at payload_merged_text [''pull_request'', ''merged''] = Some (PStr ''true'')
   \<and> shaped_pull_request payload_merged_text
   \<and> handle_pull_request rejecting_parser clock_a clock_b payload_merged_text =
       Inr (Some [(''action'', PStr ''merge''), (''author'', PStr ''carol''),
                  (''to_branch'', PStr ''unknown''), (''from_branch'', PStr ''unknown''),
                  (''timestamp'', PDatetime clock_a), (''repo'', PStr []),
                  (''created_at'', PDatetime clock_b)])
   \<and> action_is payload_closed ''closed''
   \<and> field_at payload_closed [''pull_request'', ''merged''] = None
   \<and> shaped_pull_request payload_closed
   \<and> handle_pull_request rejecting_parser clock_a clock_b payload_closed = Inr None"
  using handle_pull_request_closed [of payload_merged_text rejecting_parser clock_a clock_b]
    handle_pull_request_closed [of payload_closed rejecting_parser clock_a clock_b]
  by (simp add: payload_merged_text_def payload_closed_def shaped_pull_request_def opt_dict_def
      opt_str_def is_dict_def is_str_def handle_pull_request_def py_or_def ref_to_branch_def
      author_of_def action_is_def merged_truthy_def)

section \<open>Exceptions\<close>














section \<open>Authors and branches of the records\<close>

text \<open>
  C7, as the code has it: the author of a pull-request or merge record is the first truthy
  value among the login under \<^verbatim>\<open>merged_by\<close> (merge) or \<^verbatim>\<open>user\<close> (pull request), the sender's
  login and the literal \<^verbatim>\<open>Unknown\<close>; it is never empty or null, and it is a non-empty string
  whenever the logins present are strings. The author of a push record is \<^verbatim>\<open>unknown-user\<close> when
  the pusher or its name is absent, and the pusher's name when that is a non-empty string.
\<close>

theorem record_author:
  "(\<forall>d. handle_pull_request f t1 t2 p = Inr (Some d) \<longrightarrow>
        truthy (doc_get d ''author'')
      \<and> doc_get d ''author'' =
          spec_author p (if is_record (Some d) ''merge'' then ''merged_by'' else ''user'')
      \<and> (opt_str p [''pull_request'', ''merged_by'', ''login'']
           \<and> opt_str p [''pull_request'', ''user'', ''login'']
           \<and> opt_str p [''sender'', ''login''] \<longrightarrow> nonempty_str (doc_get d ''author'')))
   \<and> (\<forall>d. handle_push t1 t2 p = Inr d \<longrightarrow>
        (field_at p [''pusher'', ''name''] = None \<longrightarrow>
           doc_get d ''author'' = PStr ''unknown-user'')
      \<and> (nonempty_str (value_at p [''pusher'', ''name'']) \<longrightarrow>
           doc_get d ''author'' = value_at p [''pusher'', ''name'']))"
proof (intro conjI allI impI)
  fix d assume h: "handle_pull_request f t1 t2 p = Inr (Some d)"
  from handle_pull_request_record [OF h] obtain tag k tb fb ts
    where d: "d = [(''action'', PStr tag), (''author'', spec_author p k), (''to_branch'', PStr tb),
           (''from_branch'', PStr fb), (''timestamp'', PDatetime ts),
           (''repo'', (case field_at p [''repository'', ''full_name''] of
                         Some v \<Rightarrow> v | None \<Rightarrow> PStr [])),
           (''created_at'', PDatetime t2)]"
      and k: "tag = ''merge'' \<and> k = ''merged_by'' \<or> tag = ''pull_request'' \<and> k = ''user''"
    by blast
  have a: "doc_get d ''author'' = spec_author p k" by (simp add: d doc_get_def)
  show "truthy (doc_get d ''author'')" by (simp add: a spec_author_truthy)
  from k show "doc_get d ''author'' =
      spec_author p (if is_record (Some d) ''merge'' then ''merged_by'' else ''user'')"
    unfolding a by (auto simp: d is_record_def doc_get_def)
  show "nonempty_str (doc_get d ''author'')"
    if "opt_str p [''pull_request'', ''merged_by'', ''login'']
           \<and> opt_str p [''pull_request'', ''user'', ''login'']
           \<and> opt_str p [''sender'', ''login'']"
    using k that unfolding a by (auto intro: spec_author_string)
next
  fix d assume h: "handle_push t1 t2 p = Inr d"
  from handle_push_record [OF h] obtain b
    where d: "d = [(''action'', PStr ''push''),
        (''author'', (case field_at p [''pusher'', ''name''] of
                        Some v \<Rightarrow> v | None \<Rightarrow> PStr ''unknown-user'')),
        (''repo'', (case field_at p [''repository'', ''name''] of
                      Some v \<Rightarrow> v | None \<Rightarrow> PStr ''unknown-repo'')),
        (''from_branch'', PNone),
        (''to_branch'', PStr b),
        (''timestamp'', PDatetime t1),
        (''created_at'', PDatetime t2)]"
    by blast
  have a: "doc_get d ''author'' = (case field_at p [''pusher'', ''name''] of
                        Some v \<Rightarrow> v | None \<Rightarrow> PStr ''unknown-user'')"
    by (simp add: d doc_get_def)
  show "doc_get d ''author'' = PStr ''unknown-user''"
    if "field_at p [''pusher'', ''name''] = None"
    unfolding a that by simp
  show "doc_get d ''author'' = value_at p [''pusher'', ''name'']"
    if "nonempty_str (value_at p [''pusher'', ''name''])"
    using that unfolding a value_at_def by (auto simp: nonempty_str_def split: option.splits)
qed

theorem record_author_witness:
  "handle_pull_request rejecting_parser clock_a clock_b payload_opened =
       Inr (Some [(''action'', PStr ''pull_request''), (''author'', PStr ''bob''),
                  (''to_branch'', PStr ''main''), (''from_branch'', PStr ''feature''),
                  (''timestamp'', PDatetime clock_a), (''repo'', PStr []),
                  (''created_at'', PDatetime clock_b)])
   \<and> opt_str payload_opened [''pull_request'', ''merged_by'', ''login'']
   \<and> opt_str payload_opened [''pull_request'', ''user'', ''login'']
   \<and> opt_str payload_opened [''sender'', ''login'']
   \<and> spec_author payload_opened ''user'' = PStr ''bob''
   \<and> handle_push clock_a clock_b payload_push =
       Inr [(''action'', PStr ''push''), (''author'', PStr ''alice''),
            (''repo'', PStr ''repo1''), (''from_branch'', PNone),
            (''to_branch'', PStr ''main''), (''timestamp'', PDatetime clock_a),
            (''created_at'', PDatetime clock_b)]
   \<and> nonempty_str (value_at payload_push [''pusher'', ''name''])
   \<and> field_at (PDict []) [''pusher'', ''name''] = None
   \<and> handle_push clock_a clock_b (PDict []) =
       Inr [(''action'', PStr ''push''), (''author'', PStr ''unknown-user''),
            (''repo'', PStr ''unknown-repo''), (''from_branch'', PNone),
            (''to_branch'', PStr []), (''timestamp'', PDatetime clock_a),
            (''created_at'', PDatetime clock_b)]"
  using record_author [of rejecting_parser clock_a clock_b payload_opened]
    record_author [of rejecting_parser clock_a clock_b payload_push]
    record_author [of rejecting_parser clock_a clock_b "PDict []"]
  by (simp add: payload_opened_def payload_push_def opt_str_def is_str_def handle_push_def
      handle_pull_request_def py_or_def py_replace_def ref_to_branch_def str_replace.simps
      author_of_def parse_github_timestamp_def spec_author_def value_at_def nonempty_str_def)

text \<open>
  The claim says that the author is a non-empty string on every payload: a push whose pusher
  has the empty name is stored with an empty author, and a pull request whose user login is
  the number 7 is stored with that number as its author.
\<close>

theorem author_counterexample:
  "handle_push clock_a clock_b payload_empty_name =
       Inr [(''action'', PStr ''push''), (''author'', PStr []),
            (''repo'', PStr ''unknown-repo''), (''from_branch'', PNone),
            (''to_branch'', PStr []), (''timestamp'', PDatetime clock_a),
            (''created_at'', PDatetime clock_b)]
   \<and> handle_pull_request rejecting_parser clock_a clock_b payload_login_number =
       Inr (Some [(''action'', PStr ''pull_request''), (''author'', PInt 7),
                  (''to_branch'', PStr ''unknown''), (''from_branch'', PStr ''unknown''),
                  (''timestamp'', PDatetime clock_a), (''repo'', PStr []),
                  (''created_at'', PDatetime clock_b)])"
  by (simp add: payload_empty_name_def payload_login_number_def handle_push_def
      handle_pull_request_def py_or_def py_replace_def ref_to_branch_def str_replace.simps
      author_of_def parse_github_timestamp_def)

text \<open>
  C9, as the code has it: in every record that \<^verbatim>\<open>handle_pull_request\<close> produces, \<^verbatim>\<open>to_branch\<close>
  and \<^verbatim>\<open>from_branch\<close> are strings, never null; each is the literal \<^verbatim>\<open>unknown\<close> when its ref
  (\<^verbatim>\<open>base.ref\<close>, \<^verbatim>\<open>head.ref\<close>) is missing, null or empty; and each is the non-empty branch name
  that the specification's resolver gives when its ref is a non-empty string that does not
  begin with \<^verbatim>\<open>refs/heads/\<close>, or that prefix followed by a non-empty name in which the prefix
  does not occur again.
\<close>

theorem record_branches:
  assumes "handle_pull_request f t1 t2 p = Inr (Some d)"
  shows "is_str (doc_get d ''to_branch'') \<and> is_str (doc_get d ''from_branch'')
    \<and> (plain_ref (field_at p [''pull_request'', ''base'', ''ref'']) \<longrightarrow>
          doc_get d ''to_branch''
            = PStr (spec_resolve (field_at p [''pull_request'', ''base'', ''ref'']))
        \<and> nonempty_str (doc_get d ''to_branch''))
    \<and> (plain_ref (field_at p [''pull_request'', ''head'', ''ref'']) \<longrightarrow>
          doc_get d ''from_branch''
            = PStr (spec_resolve (field_at p [''pull_request'', ''head'', ''ref'']))
        \<and> nonempty_str (doc_get d ''from_branch''))
    \<and> (\<not> truthy (value_at p [''pull_request'', ''base'', ''ref'']) \<longrightarrow>
          doc_get d ''to_branch'' = PStr ''unknown'')
    \<and> (\<not> truthy (value_at p [''pull_request'', ''head'', ''ref'']) \<longrightarrow>
          doc_get d ''from_branch'' = PStr ''unknown'')"
proof -
  from handle_pull_request_record [OF assms] obtain tag k tb fb ts
    where d: "d = [(''action'', PStr tag), (''author'', spec_author p k), (''to_branch'', PStr tb),
           (''from_branch'', PStr fb), (''timestamp'', PDatetime ts),
           (''repo'', (case field_at p [''repository'', ''full_name''] of
                         Some v \<Rightarrow> v | None \<Rightarrow> PStr [])),
           (''created_at'', PDatetime t2)]"
      and tb: "ref_to_branch (case field_at p [''pull_request'', ''base'', ''ref''] of
                          Some v \<Rightarrow> v | None \<Rightarrow> PStr []) = Inr tb"
      and fb: "ref_to_branch (case field_at p [''pull_request'', ''head'', ''ref''] of
                          Some v \<Rightarrow> v | None \<Rightarrow> PStr []) = Inr fb"
    by blast
  have t: "doc_get d ''to_branch'' = PStr tb" and f: "doc_get d ''from_branch'' = PStr fb"
    by (simp_all add: d doc_get_def)
  have falsy: "b = ''unknown''"
    if "\<not> truthy (value_at p ks)"
      and "ref_to_branch (case field_at p ks of Some v \<Rightarrow> v | None \<Rightarrow> PStr []) = Inr b"
    for ks b
  proof (cases "field_at p ks")
    case None
    with that(2) show ?thesis by (simp add: ref_to_branch_def)
  next
    case (Some v)
    with that have "\<not> truthy v" "ref_to_branch v = Inr b" by (simp_all add: value_at_def)
    then show ?thesis by (simp add: ref_to_branch_falsy)
  qed
  show ?thesis
    unfolding t f
    using ref_to_branch_spec [OF _ tb] ref_to_branch_spec [OF _ fb] falsy [OF _ tb] falsy [OF _ fb]
    by (auto simp: is_str_def nonempty_str_def)
qed

theorem record_branches_witness:
  "handle_pull_request rejecting_parser clock_a clock_b payload_opened =
       Inr (Some [(''action'', PStr ''pull_request''), (''author'', PStr ''bob''),
                  (''to_branch'', PStr ''main''), (''from_branch'', PStr ''feature''),
                  (''timestamp'', PDatetime clock_a), (''repo'', PStr []),
                  (''created_at'', PDatetime clock_b)])
   \<and> plain_ref (field_at payload_opened [''pull_request'', ''base'', ''ref''])
   \<and> plain_ref (field_at payload_opened [''pull_request'', ''head'', ''ref''])
   \<and> spec_resolve (field_at payload_opened [''pull_request'', ''base'', ''ref'']) = ''main''
   \<and> spec_resolve (field_at payload_opened [''pull_request'', ''head'', ''ref'']) = ''feature''
   \<and> handle_pull_request rejecting_parser clock_a clock_b payload_merged_yes =
       Inr (Some [(''action'', PStr ''merge''), (''author'', PStr ''Unknown''),
                  (''to_branch'', PStr ''unknown''), (''from_branch'', PStr ''unknown''),
                  (''timestamp'', PDatetime clock_a), (''repo'', PStr []),
                  (''created_at'', PDatetime clock_b)])
   \<and> \<not> truthy (value_at payload_merged_yes [''pull_request'', ''base'', ''ref''])
   \<and> \<not> truthy (value_at payload_merged_yes [''pull_request'', ''head'', ''ref''])"
proof -
  have o: "handle_pull_request rejecting_parser clock_a clock_b payload_opened =
       Inr (Some [(''action'', PStr ''pull_request''), (''author'', PStr ''bob''),
                  (''to_branch'', PStr ''main''), (''from_branch'', PStr ''feature''),
                  (''timestamp'', PDatetime clock_a), (''repo'', PStr []),
                  (''created_at'', PDatetime clock_b)])"
    by (simp add: payload_opened_def handle_pull_request_def py_or_def ref_to_branch_def
        str_replace.simps author_of_def parse_github_timestamp_def)
  have m: "handle_pull_request rejecting_parser clock_a clock_b payload_merged_yes =
       Inr (Some [(''action'', PStr ''merge''), (''author'', PStr ''Unknown''),
                  (''to_branch'', PStr ''unknown''), (''from_branch'', PStr ''unknown''),
                  (''timestamp'', PDatetime clock_a), (''repo'', PStr []),
                  (''created_at'', PDatetime clock_b)])"
    by (simp add: payload_merged_yes_def handle_pull_request_def py_or_def ref_to_branch_def
        author_of_def)
  show ?thesis
    using record_branches [OF o] record_branches [OF m]
    by (simp add: o m)
      (simp add: payload_opened_def payload_merged_yes_def plain_ref_def spec_resolve_def
        value_at_def sublist_code)
qed

text \<open>
  The claim says that both branches are non-empty in every record: the ref \<^verbatim>\<open>refs/heads/\<close>, the
  bare prefix, resolves to the empty string.
\<close>

theorem bare_prefix_counterexample:
  "handle_pull_request rejecting_parser clock_a clock_b payload_bare_prefix =
       Inr (Some [(''action'', PStr ''pull_request''), (''author'', PStr ''Unknown''),
                  (''to_branch'', PStr []), (''from_branch'', PStr ''unknown''),
                  (''timestamp'', PDatetime clock_a), (''repo'', PStr []),
                  (''created_at'', PDatetime clock_b)])"
  by (simp add: payload_bare_prefix_def handle_pull_request_def py_or_def ref_to_branch_def
      str_replace.simps author_of_def parse_github_timestamp_def)

section \<open>What the routes store\<close>

lemma webhook_stores:
  assumes "webhook f t1 t2 coll event body = Inr (coll', resp)"
  shows "coll' = coll \<or> (\<exists>d. coll' = insert_one coll d \<and> webhook_action (doc_get d ''action''))"
proof (cases "event = ''push''")
  case True
  with assms obtain d where d: "handle_push t1 t2 (py_or body (PDict [])) = Inr d"
    and c: "coll' = insert_one coll d"
    by (auto simp: webhook_def Let_def bind_err_Inr_iff)
  from handle_push_record [OF d] have "doc_get d ''action'' = PStr ''push''"
    by (auto simp: doc_get_def)
  with c show ?thesis by (intro disjI2 exI [of _ d]) (simp add: webhook_action_def)
next
  case False
  show ?thesis
  proof (cases "event = ''pull_request''")
    case True
    with assms obtain r where r: "handle_pull_request f t1 t2 (py_or body (PDict [])) = Inr r"
      and c: "(case r of Some d \<Rightarrow> Inr (insert_one coll d, Stored) | None \<Rightarrow> Inr (coll, Ignored))
          = (Inr (coll', resp) :: error + collection \<times> response)"
      by (auto simp: webhook_def Let_def bind_err_Inr_iff)
    show ?thesis
    proof (cases r)
      case None
      with c show ?thesis by simp
    next
      case (Some d)
      with r have "handle_pull_request f t1 t2 (py_or body (PDict [])) = Inr (Some d)" by simp
      from handle_pull_request_record [OF this] have "webhook_action (doc_get d ''action'')"
        by (auto simp: doc_get_def webhook_action_def)
      moreover from c Some have "coll' = insert_one coll d" by simp
      ultimately show ?thesis by (intro disjI2 exI [of _ d]) simp
    qed
  next
    case notpr: False
    with False assms show ?thesis
      by (auto simp: webhook_def Let_def split: if_splits)
  qed
qed

lemma serve_actions:
  assumes "\<forall>e\<in>set coll. P (doc_get (snd e) ''action'')"
    and "\<And>v. webhook_action v \<Longrightarrow> P v"
    and "is_debug_request rq \<Longrightarrow> P (PStr ''debug'')"
  shows "\<forall>e\<in>set (serve f coll rq). P (doc_get (snd e) ''action'')"
proof (cases rq)
  case (Webhook t1 t2 event body)
  show ?thesis
  proof (cases "webhook f t1 t2 coll event body")
    case (Inl e)
    with Webhook assms(1) show ?thesis by (simp add: serve_def)
  next
    case (Inr res)
    obtain coll' resp where res: "res = (coll', resp)" by (cases res)
    from webhook_stores [OF Inr [unfolded res]] assms(1,2) have
      "\<forall>e\<in>set coll'. P (doc_get (snd e) ''action'')"
      by (auto simp: insert_one_def)
    with Webhook Inr res show ?thesis by (simp add: serve_def)
  qed
next
  case (DebugInsert now)
  with assms(1,3) show ?thesis
    by (auto simp: serve_def debug_insert_def insert_one_def doc_get_def is_debug_request_def)
next
  case GetEvents
  with assms(1) show ?thesis by (simp add: serve_def)
qed

lemma run_actions:
  assumes "\<forall>e\<in>set coll. P (doc_get (snd e) ''action'')"
    and "\<And>v. webhook_action v \<Longrightarrow> P v"
    and "\<And>rq. rq \<in> set rqs \<Longrightarrow> is_debug_request rq \<Longrightarrow> P (PStr ''debug'')"
  shows "\<forall>e\<in>set (run f coll rqs). P (doc_get (snd e) ''action'')"
  using assms(1,3)
proof (induction rqs arbitrary: coll)
  case Nil
  then show ?case by (simp add: run_def)
next
  case (Cons rq rqs)
  have dbg: "is_debug_request rq \<Longrightarrow> P (PStr ''debug'')"
    using Cons.prems(2) [of rq] by simp
  have "\<forall>e\<in>set (serve f coll rq). P (doc_get (snd e) ''action'')"
    using Cons.prems(1) assms(2) dbg by (rule serve_actions)
  moreover have "P (PStr ''debug'')" if "rq' \<in> set rqs" "is_debug_request rq'" for rq'
    using Cons.prems(2) [of rq'] that by simp
  ultimately have "\<forall>e\<in>set (run f (serve f coll rq) rqs). P (doc_get (snd e) ''action'')"
    by (rule Cons.IH)
  then show ?case by (simp add: run_def)
qed

text \<open>
  C4, as the code has it: after any sequence of requests, starting from the empty collection,
  every stored record has one of the action tags \<^verbatim>\<open>push\<close>, \<^verbatim>\<open>pull_request\<close>, \<^verbatim>\<open>merge\<close> or
  the tag \<^verbatim>\<open>debug\<close>; when no request went to the debug route, only the first three occur;
  and the debug route stores a record whose tag is \<^verbatim>\<open>debug\<close>.
\<close>

theorem stored_actions:
  "(\<forall>e\<in>set (run f [] rqs).
       webhook_action (doc_get (snd e) ''action'') \<or> doc_get (snd e) ''action'' = PStr ''debug'')
   \<and> ((\<forall>rq\<in>set rqs. \<not> is_debug_request rq) \<longrightarrow>
        (\<forall>e\<in>set (run f [] rqs). webhook_action (doc_get (snd e) ''action'')))
   \<and> fst (debug_insert now coll) =
        insert_one coll [(''action'', PStr ''debug''), (''author'', PStr ''ankith''),
          (''repo'', PStr ''manual-test''), (''created_at'', PDatetime now)]"
proof (intro conjI impI)
  show "\<forall>e\<in>set (run f [] rqs).
       webhook_action (doc_get (snd e) ''action'') \<or> doc_get (snd e) ''action'' = PStr ''debug''"
    by (rule run_actions) simp_all
  show "\<forall>e\<in>set (run f [] rqs). webhook_action (doc_get (snd e) ''action'')"
    if "\<forall>rq\<in>set rqs. \<not> is_debug_request rq"
    by (rule run_actions) (use that in simp_all)
  show "fst (debug_insert now coll) =
        insert_one coll [(''action'', PStr ''debug''), (''author'', PStr ''ankith''),
          (''repo'', PStr ''manual-test''), (''created_at'', PDatetime now)]"
    by (simp add: debug_insert_def)
qed


theorem stored_actions_witness:
  "run rejecting_parser []
       [Webhook clock_a clock_b ''push'' payload_push, GetEvents,
        Webhook clock_a clock_b ''ping'' PNone,
        Webhook clock_a clock_b ''pull_request'' payload_closed] = collection_push
   \<and> \<not> is_debug_request (Webhook clock_a clock_b ''push'' payload_push)
   \<and> \<not> is_debug_request GetEvents
   \<and> \<not> is_debug_request (Webhook clock_a clock_b ''ping'' PNone)
   \<and> \<not> is_debug_request (Webhook clock_a clock_b ''pull_request'' payload_closed)
   \<and> webhook_action (doc_get (snd (hd collection_push)) ''action'')"
  using stored_actions [of rejecting_parser
      "[Webhook clock_a clock_b ''push'' payload_push, GetEvents,
        Webhook clock_a clock_b ''ping'' PNone,
        Webhook clock_a clock_b ''pull_request'' payload_closed]" clock_a "[]"]
  by (simp add: run_def serve_def webhook_def handle_push_def handle_pull_request_def
      payload_push_def payload_closed_def py_or_def py_replace_def str_replace.simps
      insert_one_def collection_push_def is_debug_request_def webhook_action_def doc_get_def)

text \<open>
  The claim says that no route stores another tag: one request to \<^verbatim>\<open>/debug-insert\<close> leaves a
  record tagged \<^verbatim>\<open>debug\<close> in the collection.
\<close>

theorem debug_route_counterexample:
  "run rejecting_parser [] [DebugInsert clock_a] =
     [(0, [(''action'', PStr ''debug''), (''author'', PStr ''ankith''),
           (''repo'', PStr ''manual-test''), (''created_at'', PDatetime clock_a)])]
   \<and> PStr ''debug'' \<noteq> PStr ''push'' \<and> PStr ''debug'' \<noteq> PStr ''pull_request''
   \<and> PStr ''debug'' \<noteq> PStr ''merge''"
  by (simp add: run_def serve_def debug_insert_def insert_one_def)

section \<open>The query endpoint\<close>

lemma find_sort_limit_sorted:
  "sorted_wrt (\<lambda>a b. created_key b \<le> created_key a) (find_sort_limit coll)"
proof -
  have "sorted_wrt (\<lambda>a b. created_key a \<le> created_key b) (sort_key created_key coll)"
    using sorted_sort_key [of created_key coll] by (simp add: sorted_map)
  then have "sorted_wrt (\<lambda>a b. created_key b \<le> created_key a) (rev (sort_key created_key coll))"
    by (simp add: sorted_wrt_rev)
  then show ?thesis
    unfolding find_sort_limit_def by (rule sorted_wrt_take)
qed

lemma event_out_timestamp_formatted:
  "doc_get (event_out lib now e) ''timestamp_formatted'' =
     PStr (case doc_get (snd e) ''timestamp'' of
             PDatetime t \<Rightarrow> format_timestamp now (PDatetime t)
           | v \<Rightarrow> if truthy v then py_str lib v else [])"
  by (cases "doc_get (snd e) ''timestamp''") (simp_all add: event_out_def doc_get_def Let_def)

text \<open>
  The documents returned and the documents left out make up the collection, and together
  they are in descending order: the query keeps the newest.
\<close>

lemma find_sort_limit_newest:
  "\<exists>rest. mset (find_sort_limit coll @ rest) = mset coll
     \<and> sorted_wrt (\<lambda>a b. created_key b \<le> created_key a) (find_sort_limit coll @ rest)"
proof -
  let ?xs = "rev (sort_key created_key coll)"
  have app: "find_sort_limit coll @ drop 100 ?xs = ?xs"
    by (simp add: find_sort_limit_def)
  have "sorted_wrt (\<lambda>a b. created_key a \<le> created_key b) (sort_key created_key coll)"
    using sorted_sort_key [of created_key coll] by (simp add: sorted_map)
  then have s: "sorted_wrt (\<lambda>a b. created_key b \<le> created_key a) ?xs"
    by (simp add: sorted_wrt_rev)
  have m: "mset ?xs = mset coll" by simp
  show ?thesis
    by (rule exI [of _ "drop 100 ?xs"]) (simp only: app s m simp_thms)
qed

text \<open>
  C8, as the code has it: for every collection, \<^verbatim>\<open>get_events\<close> returns the reshaped documents of
  the query: the first 100 (all of them when there are fewer) of the whole collection arranged
  by \<^verbatim>\<open>created_at\<close> with the newest first, so that every document left out is no newer than
  any document returned. The \<^verbatim>\<open>timestamp_formatted\<close> of an element is \<^verbatim>\<open>format_timestamp\<close> of
  the stored timestamp when that is a datetime, the empty string when the timestamp is absent
  or falsy, and \<^verbatim>\<open>str\<close> of the stored value otherwise, which for a string is the string itself.
\<close>

theorem get_events_view:
  "length (get_events lib now coll) = min 100 (length coll)
   \<and> get_events lib now coll = map (event_out lib now) (find_sort_limit coll)
   \<and> sorted_wrt (\<lambda>a b. created_key b \<le> created_key a) (find_sort_limit coll)
   \<and> set (find_sort_limit coll) \<subseteq> set coll
   \<and> (\<exists>rest. mset (find_sort_limit coll @ rest) = mset coll
        \<and> sorted_wrt (\<lambda>a b. created_key b \<le> created_key a) (find_sort_limit coll @ rest))
   \<and> doc_get (event_out lib now e) ''timestamp_formatted'' =
       PStr (case doc_get (snd e) ''timestamp'' of
               PDatetime t \<Rightarrow> format_timestamp now (PDatetime t)
             | v \<Rightarrow> if truthy v then py_str lib v else [])
   \<and> py_str lib (PStr s) = s"
proof (intro conjI)
  show "length (get_events lib now coll) = min 100 (length coll)"
    by (simp add: get_events_def find_sort_limit_def)
  show "get_events lib now coll = map (event_out lib now) (find_sort_limit coll)"
    by (simp add: get_events_def)
  show "sorted_wrt (\<lambda>a b. created_key b \<le> created_key a) (find_sort_limit coll)"
    by (rule find_sort_limit_sorted)
  show "set (find_sort_limit coll) \<subseteq> set coll"
    unfolding find_sort_limit_def using set_take_subset [of 100 "rev (sort_key created_key coll)"]
    by simp
  show "\<exists>rest. mset (find_sort_limit coll @ rest) = mset coll
        \<and> sorted_wrt (\<lambda>a b. created_key b \<le> created_key a) (find_sort_limit coll @ rest)"
    by (rule find_sort_limit_newest)
  show "doc_get (event_out lib now e) ''timestamp_formatted'' =
       PStr (case doc_get (snd e) ''timestamp'' of
               PDatetime t \<Rightarrow> format_timestamp now (PDatetime t)
             | v \<Rightarrow> if truthy v then py_str lib v else [])"
    by (rule event_out_timestamp_formatted)
  show "py_str lib (PStr s) = s" by (simp add: py_str_def)
qed

theorem get_events_view_witness:
  "get_events example_lib clock_a collection_push =
     [[(''_id'', PStr ''0''), (''action'', PStr ''push''), (''author'', PStr ''alice''),
       (''to_branch'', PStr ''main''), (''from_branch'', PNone), (''repo'', PStr ''repo1''),
       (''timestamp_formatted'', PStr ''01st April 2021 - 9:30 PM UTC''),
       (''timestamp'', PStr ''2021-04-01T21:30:00Z''),
       (''created_at'', PStr ''2021-04-01T21:30:01Z'')]]
   \<and> format_timestamp clock_a (PDatetime clock_a) = ''01st April 2021 - 9:30 PM UTC''
   \<and> map fst collection_three = [0, 1, 2]
   \<and> map fst (find_sort_limit collection_three) = [1, 2, 0]
   \<and> map created_key (find_sort_limit collection_three)
       = [created_key (collection_three ! 1), created_key (collection_three ! 2),
          created_key (collection_three ! 0)]
   \<and> created_key (collection_three ! 0) < created_key (collection_three ! 2)
   \<and> created_key (collection_three ! 2) < created_key (collection_three ! 1)
   \<and> length collection_101 = 101
   \<and> length (get_events example_lib clock_a collection_101) = 100"
proof -
  have one: "get_events example_lib clock_a collection_push =
     [[(''_id'', PStr ''0''), (''action'', PStr ''push''), (''author'', PStr ''alice''),
       (''to_branch'', PStr ''main''), (''from_branch'', PNone), (''repo'', PStr ''repo1''),
       (''timestamp_formatted'', PStr ''01st April 2021 - 9:30 PM UTC''),
       (''timestamp'', PStr ''2021-04-01T21:30:00Z''),
       (''created_at'', PStr ''2021-04-01T21:30:01Z'')]]
   \<and> format_timestamp clock_a (PDatetime clock_a) = ''01st April 2021 - 9:30 PM UTC''"
    using get_events_view [of example_lib clock_a collection_push "hd collection_push" "[]"]
    by (simp add: get_events_def find_sort_limit_def collection_push_def event_out_def doc_get_def
      example_lib_def iso_seconds_def clock_a_def clock_b_def format_timestamp_def date_str_def
      time_str_def suffix_of_day_def strftime_d_def strftime_B_def strftime_Y_def pad2_def
      dec.simps digit_char_def month_names_def Let_def)
  have three: "map fst collection_three = [0, 1, 2]
   \<and> map fst (find_sort_limit collection_three) = [1, 2, 0]
   \<and> map created_key (find_sort_limit collection_three)
       = [created_key (collection_three ! 1), created_key (collection_three ! 2),
          created_key (collection_three ! 0)]
   \<and> created_key (collection_three ! 0) < created_key (collection_three ! 2)
   \<and> created_key (collection_three ! 2) < created_key (collection_three ! 1)"
    by (simp add: find_sort_limit_def collection_three_def created_key_def doc_get_def
        instant_key_def clock_a_def clock_b_def day_21_def)
  have big: "length collection_101 = 101
   \<and> length (get_events example_lib clock_a collection_101) = 100"
  proof -
    have len: "length collection_101 = 101" by (simp add: collection_101_def)
    from get_events_view [of example_lib clock_a collection_101 "hd collection_101" "[]"]
    have "length (get_events example_lib clock_a collection_101) = min 100 (length collection_101)"
      by (rule conjunct1)
    with len show ?thesis by simp
  qed
  from one three big show ?thesis by simp
qed

text \<open>
  The claim says that a stored timestamp that is not an instant is shown as the empty string:
  a document whose timestamp is the string \<^verbatim>\<open>soon\<close> is shown with that string.
\<close>

theorem text_timestamp_counterexample:
  "get_events example_lib clock_a collection_text_timestamp =
     [[(''_id'', PStr ''0''), (''action'', PStr ''push''), (''author'', PNone),
       (''to_branch'', PNone), (''from_branch'', PNone), (''repo'', PNone),
       (''timestamp_formatted'', PStr ''soon''), (''timestamp'', PStr ''soon''),
       (''created_at'', PStr ''2021-04-01T21:30:00Z'')]]"
  by (simp add: get_events_def find_sort_limit_def collection_text_timestamp_def event_out_def
      doc_get_def example_lib_def iso_seconds_def clock_a_def py_str_def pad2_def dec.simps
      digit_char_def Let_def)

end
